theory Spec2Isabelle
  imports Complex_Main "HOL-Library.AList" "HOL-Library.Sublist" "HOL-Library.Signed_Division" "HOL-Library.Word"
    "HOL-Library.Multiset"
begin

section \<open>Configuration data (config file of package ffthumbs)\<close>

text \<open>
  Go's \<open>int\<close> and \<open>time.Duration\<close> are 64-bit signed integers. The code below only
  compares them, prints them and divides durations by positive constants, so they are
  modelled as \<open>int\<close>; every theorem then holds in particular for the 64-bit range.
  \<open>ScaleBehavior\<close> and \<open>OutputType\<close> are named integer types in Go, so a configuration can
  hold values outside the declared constants; they stay integers here.
\<close>

type_synonym Duration = int

definition Microsecond :: Duration where "Microsecond = 1000"
definition Millisecond :: Duration where "Millisecond = 1000000"
definition Second :: Duration where "Second = 1000000000"

definition ScaleBehaviorNone :: int where "ScaleBehaviorNone = 0"
definition ScaleBehaviorFillToKeepAspectRatio :: int where "ScaleBehaviorFillToKeepAspectRatio = 1"
definition ScaleBehaviorCropToFit :: int where "ScaleBehaviorCropToFit = 2"

definition OutputTypeThumbs :: int where "OutputTypeThumbs = 0"
definition OutputTypeSprites :: int where "OutputTypeSprites = 1"

definition DefaultFilename :: string where "DefaultFilename = ''%04d.jpg''"

record ScaleConfig =
  Width :: int
  Height :: int
  Behavior :: int

record SpriteDimensions =
  Columns :: int
  Rows :: int

record SpritesConfig =
  Dimensions :: SpriteDimensions

record OutputConfig =
  idx :: int
  inName :: string
  outName :: string
  DstPath :: string
  Scale :: ScaleConfig
  SnapshotInterval :: Duration
  Type :: int
  Sprites :: SpritesConfig
  Quality :: int

subsection \<open>The equality helpers\<close>

text \<open>
  \<open>IsSameScaleConfig\<close> and \<open>IsSameOutputConfigFilters\<close> take pointers; a pointer is an
  \<open>option\<close> here, \<open>None\<close> being \<open>nil\<close>. The last \<open>return\<close> of either function reads
  through both pointers and would panic on \<open>nil\<close>; that is the \<open>Inl\<close> branch.
\<close>

datatype panic = NilDereference | IndexOutOfRange

definition IsSameScaleConfig :: "ScaleConfig option \<Rightarrow> ScaleConfig option \<Rightarrow> panic + bool" where
  "IsSameScaleConfig c1 c2 =
     (if c1 = None \<and> c2 = None then Inr True
      else if c1 \<noteq> None \<or> c2 \<noteq> None then Inr False
      else (case (c1, c2) of
              (Some a, Some b) \<Rightarrow>
                 Inr (Width a = Width b \<and> Height a = Height b \<and> Behavior a = Behavior b)
            | _ \<Rightarrow> Inl NilDereference))"

definition ScaleConfig_Eq :: "ScaleConfig option \<Rightarrow> ScaleConfig option \<Rightarrow> panic + bool" where
  "ScaleConfig_Eq c cfg = IsSameScaleConfig c cfg"

definition IsFixedResolution :: "ScaleConfig \<Rightarrow> bool" where
  "IsFixedResolution c = (0 < Width c \<and> 0 < Height c)"

definition IsSameOutputConfigFilters ::
  "OutputConfig option \<Rightarrow> OutputConfig option \<Rightarrow> panic + bool" where
  "IsSameOutputConfigFilters c1 c2 =
     (if c1 = None \<and> c2 = None then Inr True
      else if c1 \<noteq> None \<or> c2 \<noteq> None then Inr False
      else (case (c1, c2) of
              (Some a, Some b) \<Rightarrow>
                 (case ScaleConfig_Eq (Some (Scale a)) (Some (Scale b)) of
                    Inl p \<Rightarrow> Inl p
                  | Inr r \<Rightarrow> Inr (r \<and> SnapshotInterval a = SnapshotInterval b))
            | _ \<Rightarrow> Inl NilDereference))"

definition EqFilters :: "OutputConfig option \<Rightarrow> OutputConfig option \<Rightarrow> panic + bool" where
  "EqFilters c cfg = IsSameOutputConfigFilters c cfg"

section \<open>Printing integers (\<open>strconv.Itoa\<close>, the verb \<open>%d\<close>)\<close>

definition digit_char :: "int \<Rightarrow> char" where
  "digit_char d = ''0123456789'' ! nat d"

function int_digits :: "int \<Rightarrow> string" where
  "int_digits n =
     (if n < 10 then [digit_char n] else int_digits (n div 10) @ [digit_char (n mod 10)])"
  by pat_completeness auto
termination
  by (relation "measure nat") auto

declare int_digits.simps [simp del]

definition Itoa :: "int \<Rightarrow> string" where
  "Itoa i = (if i < 0 then CHR ''-'' # int_digits (- i) else int_digits i)"

section \<open>The validator (\<open>validator.go\<close>)\<close>

datatype ValidationErrType =
    ValidationErrTypeNoOutputs
  | ValidationErrTypeQuality
  | ValidationErrTypeSnapshotInterval
  | ValidationErrTypeOutputType
  | ValidationErrTypeScale
  | ValidationErrTypeSpiteDims
  | ValidationErrTypeScaleBehavior

record ValidationError =
  ErrType :: ValidationErrType
  Msg :: string

text \<open>
  The body of the \<open>for idx, output := range outputs\<close> loop: the first check that fails
  returns its error, \<open>None\<close> means the output passed every check. The slice holds pointers
  in Go; it is modelled as the list of the structures they point to, so a slice with a
  \<open>nil\<close> entry (on which the loop would panic) is outside the model.
\<close>

definition validateOutput :: "int \<Rightarrow> OutputConfig \<Rightarrow> ValidationError option" where
  "validateOutput i output =
     (if Quality output \<noteq> 0 \<and> (Quality output < 1 \<or> 31 < Quality output) then
        Some \<lparr>ErrType = ValidationErrTypeQuality,
              Msg = ''output '' @ Itoa i @ '' has wrong quality, valid values are 1-31, got ''
                    @ Itoa (Quality output)\<rparr>
      else if SnapshotInterval output < Millisecond then
        Some \<lparr>ErrType = ValidationErrTypeSnapshotInterval,
              Msg = ''output '' @ Itoa i @ '' snapshot interval is less than one millesecond''\<rparr>
      else if Width (Scale output) < 0 \<and> Height (Scale output) < 0 then
        Some \<lparr>ErrType = ValidationErrTypeScale,
              Msg = ''output '' @ Itoa i @ '' scale has both negative width and height''\<rparr>
      else if Width (Scale output) = 0 then
        Some \<lparr>ErrType = ValidationErrTypeScale,
              Msg = ''output '' @ Itoa i @ '' scale width cannot be zero''\<rparr>
      else if Height (Scale output) = 0 then
        Some \<lparr>ErrType = ValidationErrTypeScale,
              Msg = ''output '' @ Itoa i @ '' scale height cannot be zero''\<rparr>
      else if Type output = OutputTypeSprites \<and> Rows (Dimensions (Sprites output)) < 1 then
        Some \<lparr>ErrType = ValidationErrTypeSpiteDims,
              Msg = ''output '' @ Itoa i @ '' sprite rows dimension is less than 1''\<rparr>
      else if Type output = OutputTypeSprites \<and> Columns (Dimensions (Sprites output)) < 1 then
        Some \<lparr>ErrType = ValidationErrTypeSpiteDims,
              Msg = ''output '' @ Itoa i @ '' sprite columns dimension is less than 1''\<rparr>
      else if Type output \<noteq> OutputTypeThumbs \<and> Type output \<noteq> OutputTypeSprites then
        Some \<lparr>ErrType = ValidationErrTypeOutputType,
              Msg = ''output '' @ Itoa i @ '' has unkwown type: '' @ Itoa (Type output)\<rparr>
      else if Behavior (Scale output) \<noteq> ScaleBehaviorNone
              \<and> Behavior (Scale output) \<noteq> ScaleBehaviorFillToKeepAspectRatio
              \<and> Behavior (Scale output) \<noteq> ScaleBehaviorCropToFit then
        Some \<lparr>ErrType = ValidationErrTypeScaleBehavior,
              Msg = ''output '' @ Itoa i @ '' has unknown scale behavior: ''
                    @ Itoa (Behavior (Scale output))\<rparr>
      else None)"

fun validateLoop :: "int \<Rightarrow> OutputConfig list \<Rightarrow> ValidationError option" where
  "validateLoop i [] = None"
| "validateLoop i (output # rest) =
     (case validateOutput i output of
        Some e \<Rightarrow> Some e
      | None \<Rightarrow> validateLoop (i + 1) rest)"

definition validateOutputs :: "OutputConfig list \<Rightarrow> ValidationError option" where
  "validateOutputs outputs =
     (if length outputs = 0 then
        Some \<lparr>ErrType = ValidationErrTypeNoOutputs,
              Msg = ''at least one output should be provided''\<rparr>
      else validateLoop 0 outputs)"

subsection \<open>The validation contract as the specification words it\<close>

text \<open>
  The specification lists the rules in priority order; an output's first violation, in
  that order, is the one reported, and outputs are examined in list order.
\<close>

datatype rule =
    QualityOutOfRange
  | IntervalBelowMillisecond
  | BothDimensionsNegative
  | WidthZero
  | HeightZero
  | SpriteRowsOrColumnsBelowOne
  | UnknownKind
  | UnknownScaleBehavior

fun violates :: "rule \<Rightarrow> OutputConfig \<Rightarrow> bool" where
  "violates QualityOutOfRange output =
     (\<not> (Quality output = 0 \<or> (1 \<le> Quality output \<and> Quality output \<le> 31)))"
| "violates IntervalBelowMillisecond output = (SnapshotInterval output < 1000000)"
| "violates BothDimensionsNegative output =
     (Width (Scale output) < 0 \<and> Height (Scale output) < 0)"
| "violates WidthZero output = (Width (Scale output) = 0)"
| "violates HeightZero output = (Height (Scale output) = 0)"
| "violates SpriteRowsOrColumnsBelowOne output =
     (Type output = 1 \<and> (Rows (Dimensions (Sprites output)) < 1
                          \<or> Columns (Dimensions (Sprites output)) < 1))"
| "violates UnknownKind output = (Type output \<noteq> 0 \<and> Type output \<noteq> 1)"
| "violates UnknownScaleBehavior output =
     (Behavior (Scale output) \<noteq> 0 \<and> Behavior (Scale output) \<noteq> 1
      \<and> Behavior (Scale output) \<noteq> 2)"

definition spec_priority :: "rule list" where
  "spec_priority =
     [QualityOutOfRange, IntervalBelowMillisecond, BothDimensionsNegative, WidthZero,
      HeightZero, SpriteRowsOrColumnsBelowOne, UnknownKind, UnknownScaleBehavior]"

definition spec_first_violation :: "OutputConfig \<Rightarrow> rule option" where
  "spec_first_violation output = find (\<lambda>r. violates r output) spec_priority"

fun spec_rule_type :: "rule \<Rightarrow> ValidationErrType" where
  "spec_rule_type QualityOutOfRange = ValidationErrTypeQuality"
| "spec_rule_type IntervalBelowMillisecond = ValidationErrTypeSnapshotInterval"
| "spec_rule_type BothDimensionsNegative = ValidationErrTypeScale"
| "spec_rule_type WidthZero = ValidationErrTypeScale"
| "spec_rule_type HeightZero = ValidationErrTypeScale"
| "spec_rule_type SpriteRowsOrColumnsBelowOne = ValidationErrTypeSpiteDims"
| "spec_rule_type UnknownKind = ValidationErrTypeOutputType"
| "spec_rule_type UnknownScaleBehavior = ValidationErrTypeScaleBehavior"

text \<open>
  The outcome of the contract: \<open>None\<close> for a valid list, the "no outputs" failure for the
  empty list, and otherwise the position of the first output that violates a rule
  together with that output's first violated rule.
\<close>

datatype verdict = NoOutputs | Violation nat rule

fun spec_scan :: "nat \<Rightarrow> OutputConfig list \<Rightarrow> verdict option" where
  "spec_scan i [] = None"
| "spec_scan i (output # rest) =
     (case spec_first_violation output of
        Some r \<Rightarrow> Some (Violation i r)
      | None \<Rightarrow> spec_scan (Suc i) rest)"

definition spec_validate :: "OutputConfig list \<Rightarrow> verdict option" where
  "spec_validate outputs = (if outputs = [] then Some NoOutputs else spec_scan 0 outputs)"

fun verdict_type :: "verdict \<Rightarrow> ValidationErrType" where
  "verdict_type NoOutputs = ValidationErrTypeNoOutputs"
| "verdict_type (Violation i r) = spec_rule_type r"

text \<open>The failure the code reports, read back as a verdict through its text and type.\<close>

definition rule_message :: "rule \<Rightarrow> OutputConfig \<Rightarrow> string" where
  "rule_message r output =
     (case r of
        QualityOutOfRange \<Rightarrow>
          '' has wrong quality, valid values are 1-31, got '' @ Itoa (Quality output)
      | IntervalBelowMillisecond \<Rightarrow> '' snapshot interval is less than one millesecond''
      | BothDimensionsNegative \<Rightarrow> '' scale has both negative width and height''
      | WidthZero \<Rightarrow> '' scale width cannot be zero''
      | HeightZero \<Rightarrow> '' scale height cannot be zero''
      | SpriteRowsOrColumnsBelowOne \<Rightarrow>
          (if Rows (Dimensions (Sprites output)) < 1
           then '' sprite rows dimension is less than 1''
           else '' sprite columns dimension is less than 1'')
      | UnknownKind \<Rightarrow> '' has unkwown type: '' @ Itoa (Type output)
      | UnknownScaleBehavior \<Rightarrow>
          '' has unknown scale behavior: '' @ Itoa (Behavior (Scale output)))"

definition verdict_error :: "OutputConfig list \<Rightarrow> verdict \<Rightarrow> ValidationError" where
  "verdict_error outputs v =
     (case v of
        NoOutputs \<Rightarrow>
          \<lparr>ErrType = ValidationErrTypeNoOutputs, Msg = ''at least one output should be provided''\<rparr>
      | Violation i r \<Rightarrow>
          \<lparr>ErrType = spec_rule_type r,
           Msg = ''output '' @ Itoa (int i) @ rule_message r (outputs ! i)\<rparr>)"

section \<open>Floating point: \<open>Duration.Seconds\<close> and the verb \<open>%g\<close>\<close>

text \<open>
  A finite binary64 number is a pair \<open>(m, e)\<close> standing for \<open>m * 2 ^ e\<close>, kept in the
  canonical form \<open>2 ^ 52 \<le> \<bar>m\<bar> < 2 ^ 53\<close> (zero is \<open>(0, 0)\<close>), so that equal numbers are
  equal pairs. Every operation computes the exact rational result as a fraction of
  integers and rounds it to the nearest such number, ties to the even mantissa, as
  IEEE 754 prescribes. The durations below stay far inside the normal range, so
  subnormal numbers, infinities and NaN do not arise and are not modelled.
\<close>

type_synonym float64 = "int \<times> int"

function ilen :: "int \<Rightarrow> int \<Rightarrow> nat" where
  "ilen b x = (if 0 < x \<and> 1 < b then Suc (ilen b (x div b)) else 0)"
  by pat_completeness auto
termination
  by (relation "measure (\<lambda>(b, x). nat x)") (auto intro!: int_div_less_self)

declare ilen.simps [simp del]

definition shl :: "int \<Rightarrow> int \<Rightarrow> int" where
  "shl x k = (if 0 < k then x * 2 ^ nat k else x)"

definition rne_div :: "int \<Rightarrow> int \<Rightarrow> int" where
  "rne_div n d =
     (if 2 * (n mod d) < d then n div d
      else if d < 2 * (n mod d) then n div d + 1
      else if even (n div d) then n div d else n div d + 1)"

definition ilog2_frac :: "int \<Rightarrow> int \<Rightarrow> int" where
  "ilog2_frac n d =
     (if shl d (int (ilen 2 n) - int (ilen 2 d)) \<le> shl n (int (ilen 2 d) - int (ilen 2 n))
      then int (ilen 2 n) - int (ilen 2 d)
      else int (ilen 2 n) - int (ilen 2 d) - 1)"

definition f64_norm :: "int \<Rightarrow> int \<Rightarrow> float64" where
  "f64_norm m e = (if m = 2 ^ 53 then (2 ^ 52, e + 1) else (m, e))"

definition f64_round_at :: "int \<Rightarrow> int \<Rightarrow> int \<Rightarrow> float64" where
  "f64_round_at e n d = f64_norm (rne_div (shl n (- e)) (shl d e)) e"

definition f64_round_pos :: "int \<Rightarrow> int \<Rightarrow> float64" where
  "f64_round_pos n d = f64_round_at (ilog2_frac n d - 52) n d"

definition f64_neg :: "float64 \<Rightarrow> float64" where
  "f64_neg x = (- fst x, snd x)"

text \<open>\<open>f64_round n d\<close> is the binary64 number nearest to the fraction \<open>n / d\<close>, \<open>0 < d\<close>.\<close>

definition f64_round :: "int \<Rightarrow> int \<Rightarrow> float64" where
  "f64_round n d = (if n = 0 then (0, 0)
                    else if n < 0 then f64_neg (f64_round_pos (- n) d)
                    else f64_round_pos n d)"

definition f64_of_int :: "int \<Rightarrow> float64" where
  "f64_of_int n = f64_round n 1"

definition f64_add :: "float64 \<Rightarrow> float64 \<Rightarrow> float64" where
  "f64_add x y =
     f64_round
       (shl (shl (fst x) (snd x - snd y) + shl (fst y) (snd y - snd x)) (min (snd x) (snd y)))
       (shl 1 (- min (snd x) (snd y)))"

definition f64_div :: "float64 \<Rightarrow> float64 \<Rightarrow> float64" where
  "f64_div x y =
     f64_round (shl (fst x * sgn (fst y)) (snd x - snd y)) (shl \<bar>fst y\<bar> (snd y - snd x))"

text \<open>
  The real number that a pair stands for.
\<close>

definition valr :: "float64 \<Rightarrow> real" where
  "valr x = real_of_int (fst x) * 2 powi (snd x)"

text \<open>
  \<open>Duration.Truncate\<close> and \<open>Duration.Seconds\<close> of package \<open>time\<close>; Go's \<open>/\<close> and \<open>%\<close> on
  integers truncate towards zero (\<open>sdiv\<close>, \<open>smod\<close>).
\<close>

definition Truncate :: "Duration \<Rightarrow> Duration \<Rightarrow> Duration" where
  "Truncate d m = (if m \<le> 0 then d else d - d smod m)"

definition Seconds :: "Duration \<Rightarrow> float64" where
  "Seconds d =
     f64_add (f64_of_int (d sdiv Second))
             (f64_div (f64_of_int (d smod Second)) (f64_of_int 1000000000))"

text \<open>
  \<open>%g\<close> without a precision prints the shortest decimal that reads back as the same
  binary64 number (\<open>strconv.FormatFloat(x, 'g', -1, 64)\<close>). For a number of decimal
  exponent \<open>k\<close> the search tries \<open>n = 1, 2, \<dots>\<close> digits: the candidates with \<open>n\<close> digits are
  \<open>x\<close> cut after \<open>n\<close> digits and that plus one unit of the last digit; a candidate is
  acceptable when it rounds to \<open>x\<close>; when both are, the one nearer to \<open>x\<close> is taken.
  Seventeen digits always identify a binary64 number, so the search ends there.
\<close>

definition pow10i :: "int \<Rightarrow> int" where
  "pow10i k = (if 0 < k then 10 ^ nat k else 1)"

definition dec_num :: "float64 \<Rightarrow> int \<Rightarrow> int" where
  "dec_num x p = shl \<bar>fst x\<bar> (snd x) * pow10i (- p)"

definition dec_den :: "float64 \<Rightarrow> int \<Rightarrow> int" where
  "dec_den x p = shl 1 (- snd x) * pow10i p"

definition cand_down :: "float64 \<Rightarrow> int \<Rightarrow> int" where
  "cand_down x p = dec_num x p div dec_den x p"

definition f64_of_dec :: "int \<Rightarrow> int \<Rightarrow> float64" where
  "f64_of_dec c p = f64_round (c * pow10i p) (pow10i (- p))"

definition okdown :: "float64 \<Rightarrow> int \<Rightarrow> bool" where
  "okdown x p = (f64_of_dec (cand_down x p) p = (\<bar>fst x\<bar>, snd x))"

definition okup :: "float64 \<Rightarrow> int \<Rightarrow> bool" where
  "okup x p = (f64_of_dec (cand_down x p + 1) p = (\<bar>fst x\<bar>, snd x))"

definition pick :: "float64 \<Rightarrow> int \<Rightarrow> int" where
  "pick x p = (if okdown x p \<and> okup x p then rne_div (dec_num x p) (dec_den x p)
               else if okup x p then cand_down x p + 1 else cand_down x p)"

definition dexp :: "float64 \<Rightarrow> int" where
  "dexp x = (if dec_den x 0 \<le> dec_num x 0 then int (ilen 10 (dec_num x 0 div dec_den x 0))
             else 1 - int (ilen 10 ((dec_den x 0 - 1) div dec_num x 0)))"

function shortest :: "float64 \<Rightarrow> int \<Rightarrow> nat \<Rightarrow> int \<times> int" where
  "shortest x k n =
     (if 17 \<le> n \<or> okdown x (k - int n) \<or> okup x (k - int n)
      then (pick x (k - int n), k - int n)
      else shortest x k (Suc n))"
  by pat_completeness auto
termination
  by (relation "measure (\<lambda>(x, k, n). 17 - n)") auto

declare shortest.simps [simp del]

function strip10 :: "int \<Rightarrow> int \<Rightarrow> int \<times> int" where
  "strip10 c p = (if c \<noteq> 0 \<and> c mod 10 = 0 then strip10 (c div 10) (p + 1) else (c, p))"
  by pat_completeness auto
termination
  by (relation "measure (\<lambda>(c, p). nat \<bar>c\<bar>)") auto

declare strip10.simps [simp del]

text \<open>
  The two layouts of \<open>strconv\<close>: \<open>%e\<close> (one digit, the others after a point, a signed
  exponent of at least two digits) and \<open>%f\<close> (positional, as many decimals as there are
  digits after the point). \<open>ds\<close> are the digits, \<open>dp\<close> the position of the decimal point.
\<close>

definition fmtE :: "string \<Rightarrow> int \<Rightarrow> string" where
  "fmtE ds dp =
     take 1 ds @ (if 1 < length ds then CHR ''.'' # drop 1 ds else [])
     @ [CHR ''e''] @ (if dp - 1 < 0 then ''-'' else ''+'')
     @ (if \<bar>dp - 1\<bar> < 10 then CHR ''0'' # int_digits \<bar>dp - 1\<bar> else int_digits \<bar>dp - 1\<bar>)"

definition fmtF :: "string \<Rightarrow> int \<Rightarrow> string" where
  "fmtF ds dp =
     (if 0 < dp then take (nat dp) ds @ replicate (nat dp - length ds) CHR ''0'' else ''0'')
     @ (if dp < int (length ds)
        then CHR ''.'' # replicate (nat (- dp)) CHR ''0'' @ drop (nat dp) ds else [])"

text \<open>
  \<open>%g\<close> chooses \<open>%e\<close> when the exponent \<open>dp - 1\<close> is below \<open>-4\<close> or at least \<open>6\<close> (the
  threshold that \<open>strconv\<close> uses for the shortest precision), and \<open>%f\<close> otherwise.
\<close>

definition fmt_layout :: "string \<Rightarrow> int \<Rightarrow> string" where
  "fmt_layout ds dp = (if dp - 1 < - 4 \<or> 6 \<le> dp - 1 then fmtE ds dp else fmtF ds dp)"

definition fmt_digits :: "int \<times> int \<Rightarrow> string" where
  "fmt_digits cp = fmt_layout (int_digits (fst cp)) (snd cp + int (length (int_digits (fst cp))))"

definition shortest_decimal :: "float64 \<Rightarrow> int \<times> int" where
  "shortest_decimal x = strip10 (fst (shortest x (dexp x) 1)) (snd (shortest x (dexp x) 1))"

definition fmt_g :: "float64 \<Rightarrow> string" where
  "fmt_g x = (if fst x = 0 then ''0''
              else (if fst x < 0 then ''-'' else []) @ fmt_digits (shortest_decimal x))"

section \<open>The filter graph compiler (\<open>BuildComplexFilters\<close> and its helpers)\<close>

text \<open>
  The functions below receive \<open>*OutputConfig\<close> pointers and write the node names through
  them. The structures live in a store, the list of the configuration's outputs; a
  pointer is a position in it, and the slice \<open>outputs\<close> of \<open>n\<close> distinct pointers is
  \<open>[0..<n]\<close>. A function that writes returns the new store.
\<close>

type_synonym store = "OutputConfig list"
type_synonym ptr = nat

definition backslash :: char where
  "backslash = CHR 0x5C"

definition buildSelectFramesArg :: "OutputConfig \<Rightarrow> string" where
  "buildSelectFramesArg output =
     ''[0:v]select=bitor(gte(t-prev_selected_t'' @ [backslash] @ '',''
     @ fmt_g (Seconds (Truncate (SnapshotInterval output) Microsecond))
     @ '')'' @ [backslash] @ '',isnan(prev_selected_t)),''"

definition buildScaleArg :: "ScaleConfig \<Rightarrow> string" where
  "buildScaleArg scale =
     ''scale='' @ Itoa (Width scale) @ '':'' @ Itoa (Height scale)
     @ (if Behavior scale = ScaleBehaviorFillToKeepAspectRatio then
          '':force_original_aspect_ratio=decrease,pad='' @ Itoa (Width scale) @ '':''
          @ Itoa (Height scale) @ '':-1:-1:color=black''
        else if Behavior scale = ScaleBehaviorCropToFit then
          '':force_original_aspect_ratio=increase,crop='' @ Itoa (Width scale) @ '':''
          @ Itoa (Height scale)
        else [])"

definition buildSplitArgSpiteInOutNames :: "OutputConfig \<Rightarrow> string \<times> string" where
  "buildSplitArgSpiteInOutNames output =
     (''sprites-'' @ Itoa (idx output), ''sprites-'' @ Itoa (idx output) @ ''-out'')"

definition buildSplitArgThumbOutName :: "OutputConfig \<Rightarrow> string" where
  "buildSplitArgThumbOutName output = ''thumbs-'' @ Itoa (idx output) @ ''-out''"

definition writeFilterOutputName :: "string \<Rightarrow> string \<Rightarrow> string" where
  "writeFilterOutputName builder name = builder @ ''['' @ name @ '']''"

definition buildSplitSpriteTileArg :: "OutputConfig \<Rightarrow> string" where
  "buildSplitSpriteTileArg output =
     ''tile='' @ Itoa (Columns (Dimensions (Sprites output))) @ ''x''
     @ Itoa (Rows (Dimensions (Sprites output)))"

definition buildSplitSpriteArg :: "OutputConfig \<Rightarrow> string" where
  "buildSplitSpriteArg output =
     writeFilterOutputName
       (writeFilterOutputName [] (inName output) @ buildSplitSpriteTileArg output)
       (outName output)"

text \<open>The first loop of \<open>buildSplitArg\<close>: every output of the bucket gets its names.\<close>

definition assignNames :: "OutputConfig \<Rightarrow> OutputConfig" where
  "assignNames output =
     (if Type output = OutputTypeThumbs then
        output\<lparr>outName := buildSplitArgThumbOutName output\<rparr>
      else if Type output = OutputTypeSprites then
        output\<lparr>inName := fst (buildSplitArgSpiteInOutNames output),
               outName := snd (buildSplitArgSpiteInOutNames output)\<rparr>
      else output)"

fun assignNamesLoop :: "store \<Rightarrow> ptr list \<Rightarrow> store" where
  "assignNamesLoop st [] = st"
| "assignNamesLoop st (p # ps) = assignNamesLoop (st[p := assignNames (st ! p)]) ps"

text \<open>
  The second loop writes one label per output and collects the Sprite outputs in
  \<open>needExtendedProcessing\<close>; the result is the builder and that slice.
\<close>

fun splitLabels :: "store \<Rightarrow> string \<Rightarrow> ptr list \<Rightarrow> ptr list \<Rightarrow> string \<times> ptr list" where
  "splitLabels st builder need [] = (builder, need)"
| "splitLabels st builder need (p # ps) =
     (if Type (st ! p) = OutputTypeThumbs then
        splitLabels st (builder @ ''['' @ outName (st ! p) @ '']'') need ps
      else if Type (st ! p) = OutputTypeSprites then
        splitLabels st (builder @ ''['' @ inName (st ! p) @ '']'') (need @ [p]) ps
      else splitLabels st (builder @ ''['' @ '']'') need ps)"

text \<open>
  The third loop tiles the collected Sprite outputs. Its counter \<open>idx\<close> is compared with
  \<open>len(outputs)\<close>, the size of the whole bucket (\<open>n\<close> here), as in the source.
\<close>

fun extendedLoop :: "store \<Rightarrow> nat \<Rightarrow> nat \<Rightarrow> string \<Rightarrow> ptr list \<Rightarrow> string" where
  "extendedLoop st n i builder [] = builder"
| "extendedLoop st n i builder (p # ps) =
     extendedLoop st n (Suc i)
       ((if Type (st ! p) = OutputTypeSprites then builder @ buildSplitSpriteArg (st ! p)
         else builder)
        @ (if Suc i < n then '';'' else []))
       ps"

definition buildSplitSingle :: "OutputConfig \<Rightarrow> string" where
  "buildSplitSingle output =
     (if Type output = OutputTypeThumbs then writeFilterOutputName [] (outName output)
      else if Type output = OutputTypeSprites then
        writeFilterOutputName ('','' @ buildSplitSpriteTileArg output) (outName output)
      else [])"

definition buildSplitMany :: "store \<Rightarrow> ptr list \<Rightarrow> string" where
  "buildSplitMany st outputs =
     (if length (snd (splitLabels st ('',split='' @ Itoa (int (length outputs))) [] outputs)) = 0
      then fst (splitLabels st ('',split='' @ Itoa (int (length outputs))) [] outputs)
      else extendedLoop st (length outputs) 0
             (fst (splitLabels st ('',split='' @ Itoa (int (length outputs))) [] outputs) @ '';'')
             (snd (splitLabels st ('',split='' @ Itoa (int (length outputs))) [] outputs)))"

definition buildSplitArg :: "store \<Rightarrow> ptr list \<Rightarrow> string \<times> store" where
  "buildSplitArg st outputs =
     (if length outputs = 1
      then (buildSplitSingle (assignNamesLoop st outputs ! hd outputs), assignNamesLoop st outputs)
      else (buildSplitMany (assignNamesLoop st outputs) outputs, assignNamesLoop st outputs))"

subsection \<open>Grouping\<close>

text \<open>
  A Go map is an association list with distinct keys, in insertion order; the order in
  which \<open>range\<close> visits it is a parameter of \<open>BuildComplexFilters\<close> below.

  \<open>groupOutputs\<close> makes \<open>tmpBytes\<close> with length 0 and capacity 24 and calls
  \<open>binary.LittleEndian.AppendUint64(tmpBytes, \<dots>)\<close> three times without using the slices
  these calls return, so \<open>tmpBytes\<close> still has length 0 when it is hashed. SHA-256 is a
  parameter (\<open>Sum256\<close>); the hexadecimal encoding is written out.
\<close>

type_synonym byte = "8 word"
type_synonym bucket_map = "(string \<times> ptr list) list"
type_synonym groups = "(Duration \<times> bucket_map) list"

definition AppendUint64 :: "byte list \<Rightarrow> 64 word \<Rightarrow> byte list" where
  "AppendUint64 b v = b @ map (\<lambda>i. ucast (drop_bit (8 * i) v)) [0..<8]"

definition scaleKeyBytes :: "OutputConfig \<Rightarrow> byte list" where
  "scaleKeyBytes output =
     (let tmpBytes = [];
          unused1 = AppendUint64 tmpBytes (word_of_int (Behavior (Scale output)));
          unused2 = AppendUint64 tmpBytes (word_of_int (Width (Scale output)));
          unused3 = AppendUint64 tmpBytes (word_of_int (Height (Scale output)))
      in tmpBytes)"

definition hex_digit :: "nat \<Rightarrow> char" where
  "hex_digit n = ''0123456789abcdef'' ! n"

definition hex_EncodeToString :: "byte list \<Rightarrow> string" where
  "hex_EncodeToString bs =
     concat (map (\<lambda>b. [hex_digit (unat b div 16), hex_digit (unat b mod 16)]) bs)"

definition groupStep :: "(byte list \<Rightarrow> byte list) \<Rightarrow> store \<Rightarrow> groups \<Rightarrow> ptr \<Rightarrow> groups" where
  "groupStep Sum256 st res p =
     (let output = st ! p;
          res1 = (case map_of res (SnapshotInterval output) of
                    None \<Rightarrow> AList.update (SnapshotInterval output) [] res
                  | Some m \<Rightarrow> res);
          snapshotMap = (case map_of res (SnapshotInterval output) of None \<Rightarrow> [] | Some m \<Rightarrow> m);
          hashStr = hex_EncodeToString (Sum256 (scaleKeyBytes output))
      in AList.update (SnapshotInterval output)
           (case map_of snapshotMap hashStr of
              None \<Rightarrow> AList.update hashStr [p] snapshotMap
            | Some l \<Rightarrow> AList.update hashStr (l @ [p]) snapshotMap)
           res1)"

definition groupOutputs :: "(byte list \<Rightarrow> byte list) \<Rightarrow> store \<Rightarrow> ptr list \<Rightarrow> groups" where
  "groupOutputs Sum256 st outputs = foldl (groupStep Sum256 st) [] outputs"

subsection \<open>The main loop\<close>

datatype error = ValidationFailed ValidationError | Panicked panic

text \<open>
  The branch for an interval with several scale buckets: every output of every bucket
  gets a statement of its own. \<open>buildEach\<close> is the inner loop over one bucket.
\<close>

fun buildEach :: "store \<Rightarrow> nat \<Rightarrow> nat \<Rightarrow> string \<Rightarrow> ptr list \<Rightarrow> string \<times> store" where
  "buildEach st n i builder [] = (builder, st)"
| "buildEach st n i builder (p # ps) =
     buildEach (snd (buildSplitArg st [p])) n (Suc i)
       (builder @ buildSelectFramesArg (st ! p) @ buildScaleArg (Scale (st ! p))
        @ fst (buildSplitArg st [p]) @ (if Suc i < n then '';'' else []))
       ps"

fun buildDifferent :: "store \<Rightarrow> string \<Rightarrow> bucket_map \<Rightarrow> string \<times> store" where
  "buildDifferent st builder [] = (builder, st)"
| "buildDifferent st builder (b # rest) =
     buildDifferent (snd (buildEach st (length (snd b)) 0 builder (snd b)))
       (fst (buildEach st (length (snd b)) 0 builder (snd b))) rest"

text \<open>
  \<open>buildMain\<close> is the loop over \<open>grpOutputs\<close>; \<open>n\<close> is \<open>len(grpOutputs)\<close>, the list is the map
  in the order \<open>range\<close> visits it, and \<open>ri k\<close> is the order in which \<open>range\<close> visits the inner
  map of interval \<open>k\<close>. With one bucket the loop takes the first inner entry and indexes
  \<open>outputs[0]\<close>, which panics on an empty slice.
\<close>

fun buildMain ::
  "(Duration \<Rightarrow> bucket_map \<Rightarrow> bucket_map) \<Rightarrow> nat \<Rightarrow> nat \<Rightarrow> string \<Rightarrow> store \<Rightarrow> groups
   \<Rightarrow> panic + (string \<times> store)" where
  "buildMain ri n mainIdx builder st [] = Inr (builder, st)"
| "buildMain ri n mainIdx builder st (g # rest) =
     (if length (snd g) = 1 then
        (case ri (fst g) (snd g) of
           [] \<Rightarrow> Inl IndexOutOfRange
         | b # _ \<Rightarrow>
             (case snd b of
                [] \<Rightarrow> Inl IndexOutOfRange
              | p # _ \<Rightarrow>
                  buildMain ri n (Suc mainIdx)
                    (builder @ buildSelectFramesArg (st ! p) @ buildScaleArg (Scale (st ! p))
                     @ fst (buildSplitArg st (snd b))
                     @ (if Suc mainIdx < n then '';'' else []))
                    (snd (buildSplitArg st (snd b))) rest))
      else
        buildMain ri n (Suc mainIdx)
          (fst (buildDifferent st builder (ri (fst g) (snd g)))
           @ (if Suc mainIdx < n then '';'' else []))
          (snd (buildDifferent st builder (ri (fst g) (snd g)))) rest)"

text \<open>
  \<open>BuildComplexFilters Sum256 ro ri st\<close>: \<open>ro\<close> is the order in which \<open>range\<close> visits the
  outer map. The result is the validation error, a panic, or the graph together with
  the store in which the outputs carry their node names.
\<close>

definition BuildComplexFilters ::
  "(byte list \<Rightarrow> byte list) \<Rightarrow> (groups \<Rightarrow> groups) \<Rightarrow> (Duration \<Rightarrow> bucket_map \<Rightarrow> bucket_map)
   \<Rightarrow> store \<Rightarrow> error + (string \<times> store)" where
  "BuildComplexFilters Sum256 ro ri st =
     (case validateOutputs st of
        Some e \<Rightarrow> Inl (ValidationFailed e)
      | None \<Rightarrow>
          (case buildMain ri (length (groupOutputs Sum256 st [0..<length st])) 0 [] st
                  (ro (groupOutputs Sum256 st [0..<length st])) of
             Inl p \<Rightarrow> Inl (Panicked p)
           | Inr r \<Rightarrow> Inr r))"

text \<open>
  An order of iteration visits every entry of the map once: it is a permutation of the
  entries.
\<close>

definition range_order :: "('a list \<Rightarrow> 'a list) \<Rightarrow> bool" where
  "range_order f = (\<forall>xs. mset (f xs) = mset xs)"

text \<open>
  \<open>NewGenerator\<close> numbers the outputs (and fills in the default destination) before it
  compiles the graph.
\<close>

fun assignIdxLoop :: "int \<Rightarrow> store \<Rightarrow> store" where
  "assignIdxLoop i [] = []"
| "assignIdxLoop i (output # rest) =
     output\<lparr>idx := i,
            DstPath := (if length (DstPath output) = 0 then DefaultFilename else DstPath output)\<rparr>
     # assignIdxLoop (i + 1) rest"

definition NewGenerator_filters ::
  "(byte list \<Rightarrow> byte list) \<Rightarrow> (groups \<Rightarrow> groups) \<Rightarrow> (Duration \<Rightarrow> bucket_map \<Rightarrow> bucket_map)
   \<Rightarrow> store \<Rightarrow> error + (string \<times> store)" where
  "NewGenerator_filters Sum256 ro ri outputs =
     BuildComplexFilters Sum256 ro ri (assignIdxLoop 0 outputs)"

subsection \<open>Vocabulary for the compiled graph\<close>

text \<open>
  \<open>groupOutputs\<close> appends to a buffer of length zero and drops what \<open>AppendUint64\<close>
  returns, so the digest is always taken of the empty input: every inner map has the one
  key \<open>hashKey\<close>.
\<close>

definition hashKey :: "(byte list \<Rightarrow> byte list) \<Rightarrow> string" where
  "hashKey Sum256 = hex_EncodeToString (Sum256 [])"

text \<open>
  The outputs of interval \<open>k\<close> among the pointers \<open>ps\<close>, in the order of the list, and the
  bucket of \<open>k\<close> in the whole store.
\<close>

definition bucketOf :: "store \<Rightarrow> ptr list \<Rightarrow> Duration \<Rightarrow> ptr list" where
  "bucketOf st ps k = filter (\<lambda>p. SnapshotInterval (st ! p) = k) ps"

definition bucketAt :: "store \<Rightarrow> Duration \<Rightarrow> ptr list" where
  "bucketAt st k = bucketOf st [0..<length st] k"

text \<open>
  What the main loop writes for the statements \<open>ss\<close>, in the order it visits them: \<open>n\<close> is
  \<open>len(grpOutputs)\<close> and \<open>m\<close> the value of \<open>mainIdx\<close>; a \<open>;\<close> follows a statement while
  \<open>mainIdx < len(grpOutputs)\<close> after the increment.
\<close>

fun joinFrom :: "nat \<Rightarrow> nat \<Rightarrow> string list \<Rightarrow> string" where
  "joinFrom n m [] = []"
| "joinFrom n m (s # ss) = s @ (if Suc m < n then '';'' else []) @ joinFrom n (Suc m) ss"

text \<open>
  The statement written for one bucket: the selection and scale stages are taken from
  \<open>outputs[0]\<close>, then comes what \<open>buildSplitArg\<close> writes for the bucket.
\<close>

definition statementFor :: "store \<Rightarrow> ptr list \<Rightarrow> string" where
  "statementFor st ps =
     buildSelectFramesArg (st ! hd ps) @ buildScaleArg (Scale (st ! hd ps))
     @ fst (buildSplitArg st ps)"

text \<open>
  The label that the second loop of \<open>buildSplitArg\<close> writes for one member of a bucket: the
  terminal name of a Thumbnail output, the intermediate name of a Sprite output.
\<close>

definition branchLabel :: "OutputConfig \<Rightarrow> string" where
  "branchLabel output =
     ''['' @ (if Type output = OutputTypeThumbs then buildSplitArgThumbOutName output
              else if Type output = OutputTypeSprites
              then fst (buildSplitArgSpiteInOutNames output) else [])
     @ '']''"

text \<open>
  \<open>assigned st A st'\<close>: the store \<open>st'\<close> is \<open>st\<close> after the outputs at the pointers in \<open>A\<close> got
  their names. A group is well formed when its inner map has one entry, whose bucket is
  not empty and holds pointers into the store.
\<close>

definition assigned :: "store \<Rightarrow> ptr set \<Rightarrow> store \<Rightarrow> bool" where
  "assigned st A st' =
     (length st' = length st
      \<and> (\<forall>p < length st. st' ! p = (if p \<in> A then assignNames (st ! p) else st ! p)))"

definition wellformed_group :: "store \<Rightarrow> Duration \<times> bucket_map \<Rightarrow> bool" where
  "wellformed_group st g =
     (\<exists>h ps. snd g = [(h, ps)] \<and> ps \<noteq> [] \<and> set ps \<subseteq> {..<length st})"

definition group_bucket :: "Duration \<times> bucket_map \<Rightarrow> ptr list" where
  "group_bucket g = snd (hd (snd g))"

section \<open>Example configurations\<close>

text \<open>
  The outputs of the specification's example: 320x180, fill to keep the aspect ratio,
  one frame every 6500 ms; as a Thumbnail output and as a Sprite output of 4x8 tiles.
\<close>

definition example_thumb :: OutputConfig where
  "example_thumb =
     \<lparr>idx = 0, inName = [], outName = [], DstPath = [],
      Scale = \<lparr>Width = 320, Height = 180, Behavior = ScaleBehaviorFillToKeepAspectRatio\<rparr>,
      SnapshotInterval = 6500 * Millisecond, Type = OutputTypeThumbs,
      Sprites = \<lparr>Dimensions = \<lparr>Columns = 0, Rows = 0\<rparr>\<rparr>, Quality = 0\<rparr>"

definition example_sprite :: OutputConfig where
  "example_sprite =
     \<lparr>idx = 0, inName = [], outName = [], DstPath = [],
      Scale = \<lparr>Width = 320, Height = 180, Behavior = ScaleBehaviorFillToKeepAspectRatio\<rparr>,
      SnapshotInterval = 6500 * Millisecond, Type = OutputTypeSprites,
      Sprites = \<lparr>Dimensions = \<lparr>Columns = 4, Rows = 8\<rparr>\<rparr>, Quality = 0\<rparr>"

text \<open>
  Further outputs: one of 640x360 without a scale behavior, one taken every second; a
  list of three outputs with the same interval of which the last two have the same scale
  configuration, and a list with two intervals, both numbered as \<open>NewGenerator\<close> does.
\<close>

definition example_wide :: OutputConfig where
  "example_wide = example_thumb\<lparr>Scale := \<lparr>Width = 640, Height = 360, Behavior = ScaleBehaviorNone\<rparr>\<rparr>"

definition example_every_second :: OutputConfig where
  "example_every_second = example_thumb\<lparr>SnapshotInterval := 1 * Second\<rparr>"

definition example_mixed_scales :: store where
  "example_mixed_scales = assignIdxLoop 0 [example_wide, example_thumb, example_thumb]"

definition example_two_intervals :: store where
  "example_two_intervals = assignIdxLoop 0 [example_thumb, example_every_second]"


text \<open>The number of places at which \<open>p\<close> occurs in \<open>s\<close>.\<close>

fun occ :: "string \<Rightarrow> string \<Rightarrow> nat" where
  "occ p [] = 0"
| "occ p (c # cs) = (if prefix p (c # cs) then 1 else 0) + occ p cs"

section \<open>The process session (\<open>Generate\<close> and \<open>listenForProgressLogs\<close>)\<close>

text \<open>
  A call of the logger is a value: its level, its message and its attributes (key and
  rendered value). The request's \<open>slogArgs\<close> are such attributes.
\<close>

datatype level = LevelDebug | LevelInfo | LevelError

record log_call =
  lvl :: level
  message :: string
  attrs :: "(string \<times> string) list"

subsection \<open>Reading lines with \<open>bufio.Scanner\<close>\<close>

text \<open>
  The input of a scanner is the sequence of the lines the process wrote (the text between
  line feeds). \<open>Scan\<close> delivers them in turn, without a trailing carriage return, and
  stops for good at the first line that does not fit its buffer of
  \<open>bufio.MaxScanTokenSize\<close> bytes; the loops of this package do not look at the
  scanner's error.
\<close>

definition MaxScanTokenSize :: nat where
  "MaxScanTokenSize = 64 * 1024"

definition dropCR :: "string \<Rightarrow> string" where
  "dropCR l = (if l \<noteq> [] \<and> last l = CHR 0x0D then butlast l else l)"

fun scanLines :: "string list \<Rightarrow> string list" where
  "scanLines [] = []"
| "scanLines (l # ls) = (if MaxScanTokenSize \<le> length l then [] else dropCR l # scanLines ls)"

subsection \<open>The three patterns\<close>

text \<open>
  Each pattern is a literal followed by one group, a non-empty greedy run of a character
  class. \<open>FindStringSubmatch\<close> finds the leftmost place where the literal is followed by at
  least one character of the class, and the group is the longest run from there.
  \<open>\w\<close> is \<open>[0-9A-Za-z_]\<close>.
\<close>

fun find_submatch :: "string \<Rightarrow> (char \<Rightarrow> bool) \<Rightarrow> string \<Rightarrow> string option" where
  "find_submatch lit cls [] = None"
| "find_submatch lit cls (c # cs) =
     (if prefix lit (c # cs) \<and> takeWhile cls (drop (length lit) (c # cs)) \<noteq> []
      then Some (takeWhile cls (drop (length lit) (c # cs)))
      else find_submatch lit cls cs)"

definition is_word_char :: "char \<Rightarrow> bool" where
  "is_word_char c =
     (c \<in> set ''0123456789ABCDEFGHIJKLMNOPQRSTUVWXYZ_abcdefghijklmnopqrstuvwxyz'')"

definition progressPattern :: "string \<Rightarrow> string option" where
  "progressPattern line = find_submatch ''progress='' (\<lambda>c. is_word_char c \<or> c = CHR ''.'') line"

definition outTimePattern :: "string \<Rightarrow> string option" where
  "outTimePattern line = find_submatch ''out_time='' (\<lambda>c. c \<noteq> CHR '' '') line"

definition speedPattern :: "string \<Rightarrow> string option" where
  "speedPattern line = find_submatch ''speed='' (\<lambda>c. c \<noteq> CHR '' '') line"

subsection \<open>\<open>listenForProgressLogs\<close>\<close>

text \<open>
  \<open>assign pat cur line\<close> is the value of a variable after
  \<open>if match := pat.FindStringSubmatch(line); len(match) > 1 { v = match[1] }\<close>.
\<close>

definition assign :: "(string \<Rightarrow> string option) \<Rightarrow> string \<Rightarrow> string \<Rightarrow> string" where
  "assign pat cur line = (case pat line of Some m \<Rightarrow> m | None \<Rightarrow> cur)"

definition progress_update ::
  "(string \<times> string) list \<Rightarrow> string \<Rightarrow> string \<Rightarrow> string \<Rightarrow> log_call" where
  "progress_update slogArgs progress currTime speed =
     \<lparr>lvl = LevelInfo, message = ''Progress update'',
      attrs = slogArgs @ [(''progress'', progress), (''time'', currTime), (''speed'', speed)]\<rparr>"

text \<open>
  The loop over the scanned lines, with the variables \<open>progress\<close>, \<open>currTime\<close> and \<open>speed\<close>
  as arguments; \<open>progressChanged\<close> is set by a line that matches the progress pattern and
  is reset when the event is logged, in the same iteration.
\<close>

fun listenLoop ::
  "(string \<times> string) list \<Rightarrow> string \<Rightarrow> string \<Rightarrow> string \<Rightarrow> string list \<Rightarrow> log_call list" where
  "listenLoop slogArgs progress currTime speed [] = []"
| "listenLoop slogArgs progress currTime speed (line # rest) =
     (if progressPattern line \<noteq> None
      then [progress_update slogArgs (assign progressPattern progress line)
              (assign outTimePattern currTime line) (assign speedPattern speed line)]
      else [])
     @ listenLoop slogArgs (assign progressPattern progress line)
         (assign outTimePattern currTime line) (assign speedPattern speed line) rest"

definition listenForProgressLogs :: "(string \<times> string) list \<Rightarrow> string list \<Rightarrow> log_call list" where
  "listenForProgressLogs slogArgs stdout = listenLoop slogArgs [] [] [] (scanLines stdout)"

text \<open>
  The value a variable holds after the lines \<open>ls\<close>: the group of the last line that
  matched, or the initial value.
\<close>

definition latest :: "(string \<Rightarrow> string option) \<Rightarrow> string \<Rightarrow> string list \<Rightarrow> string" where
  "latest pat cur ls = foldl (assign pat) cur ls"

subsection \<open>\<open>Generate\<close>\<close>






record Config =
  Outputs :: store
  DisableProgressLogs :: bool
  filtersStr :: string

record Generator =
  ffmpegPath :: string
  cmdArgs :: "string list"
  cfg :: Config












section \<open>Verified properties\<close>

subsection \<open>The equality helpers\<close>

text \<open>
  C10. \<open>IsSameScaleConfig\<close> (and so \<open>ScaleConfig.Eq\<close>) answers true exactly when both
  pointers are nil: its second test returns false as soon as one of them is not nil, so
  the field comparison is never reached and even a configuration compared with itself
  is reported different. \<open>IsSameOutputConfigFilters\<close> (and \<open>OutputConfig.EqFilters\<close>)
  behaves in the same way. Neither function panics.
\<close>

theorem equality_helpers_true_only_for_two_nils:
  "IsSameScaleConfig c1 c2 = Inr (c1 = None \<and> c2 = None)
   \<and> ScaleConfig_Eq c1 c2 = Inr (c1 = None \<and> c2 = None)
   \<and> IsSameScaleConfig (Some c) (Some c) = Inr False
   \<and> IsSameOutputConfigFilters o1 o2 = Inr (o1 = None \<and> o2 = None)
   \<and> EqFilters o1 o2 = Inr (o1 = None \<and> o2 = None)
   \<and> IsSameOutputConfigFilters (Some oc) (Some oc) = Inr False"
  by (auto simp: IsSameScaleConfig_def ScaleConfig_Eq_def IsSameOutputConfigFilters_def
      EqFilters_def)

theorem equality_helpers_witness:
  "IsSameScaleConfig (Some \<lparr>Width = 320, Height = 180, Behavior = 1\<rparr>)
                     (Some \<lparr>Width = 320, Height = 180, Behavior = 1\<rparr>) = Inr False
   \<and> IsSameScaleConfig None None = Inr True
   \<and> IsSameScaleConfig None (Some \<lparr>Width = 320, Height = 180, Behavior = 1\<rparr>) = Inr False"
  using equality_helpers_true_only_for_two_nils
          [of "Some \<lparr>Width = 320, Height = 180, Behavior = 1\<rparr>"
              "Some \<lparr>Width = 320, Height = 180, Behavior = 1\<rparr>"]
        equality_helpers_true_only_for_two_nils [of None None]
        equality_helpers_true_only_for_two_nils
          [of None "Some \<lparr>Width = 320, Height = 180, Behavior = 1\<rparr>"]
  by simp

subsection \<open>The scale stage\<close>

text \<open>
  C7. The scale stage always starts with \<open>scale=W:H\<close> for the configured width and
  height. With \<open>ScaleBehaviorFillToKeepAspectRatio\<close> it goes on with
  \<open>:force_original_aspect_ratio=decrease\<close> (shrink to fit) and a \<open>pad=W:H:-1:-1:color=black\<close>
  directive; with \<open>ScaleBehaviorCropToFit\<close> it goes on with
  \<open>:force_original_aspect_ratio=increase\<close> (grow to fill) and a \<open>crop=W:H\<close> directive; with
  \<open>ScaleBehaviorNone\<close> nothing follows.
\<close>

theorem buildScaleArg_by_behavior:
  "buildScaleArg \<lparr>Width = w, Height = h, Behavior = ScaleBehaviorNone\<rparr>
     = ''scale='' @ Itoa w @ '':'' @ Itoa h
   \<and> buildScaleArg \<lparr>Width = w, Height = h, Behavior = ScaleBehaviorFillToKeepAspectRatio\<rparr>
     = ''scale='' @ Itoa w @ '':'' @ Itoa h
       @ '':force_original_aspect_ratio=decrease,pad='' @ Itoa w @ '':'' @ Itoa h
       @ '':-1:-1:color=black''
   \<and> buildScaleArg \<lparr>Width = w, Height = h, Behavior = ScaleBehaviorCropToFit\<rparr>
     = ''scale='' @ Itoa w @ '':'' @ Itoa h
       @ '':force_original_aspect_ratio=increase,crop='' @ Itoa w @ '':'' @ Itoa h
   \<and> (\<exists>rest. buildScaleArg scale
          = ''scale='' @ Itoa (Width scale) @ '':'' @ Itoa (Height scale) @ rest)"
  by (simp add: buildScaleArg_def ScaleBehaviorNone_def ScaleBehaviorFillToKeepAspectRatio_def
      ScaleBehaviorCropToFit_def)

lemma Itoa_320: "Itoa 320 = ''320''"
  by (simp add: Itoa_def int_digits.simps digit_char_def)

lemma Itoa_180: "Itoa 180 = ''180''"
  by (simp add: Itoa_def int_digits.simps digit_char_def)

theorem buildScaleArg_witness:
  "buildScaleArg \<lparr>Width = 320, Height = 180, Behavior = ScaleBehaviorNone\<rparr> = ''scale=320:180''
   \<and> buildScaleArg \<lparr>Width = 320, Height = 180, Behavior = ScaleBehaviorFillToKeepAspectRatio\<rparr>
     = ''scale=320:180:force_original_aspect_ratio=decrease,pad=320:180:-1:-1:color=black''
   \<and> buildScaleArg \<lparr>Width = 320, Height = 180, Behavior = ScaleBehaviorCropToFit\<rparr>
     = ''scale=320:180:force_original_aspect_ratio=increase,crop=320:180''"
  using buildScaleArg_by_behavior [of 320 180] by (simp add: Itoa_320 Itoa_180)

subsection \<open>Evaluation helpers\<close>

lemmas cfg_consts = Millisecond_def Microsecond_def Second_def ScaleBehaviorNone_def
  ScaleBehaviorFillToKeepAspectRatio_def ScaleBehaviorCropToFit_def OutputTypeThumbs_def
  OutputTypeSprites_def

lemma Itoa_small:
  "Itoa 0 = ''0''" "Itoa 1 = ''1''" "Itoa 2 = ''2''" "Itoa 3 = ''3''" "Itoa 4 = ''4''"
  "Itoa 8 = ''8''" "Itoa 32 = ''32''" "Itoa 180 = ''180''" "Itoa 320 = ''320''"
  "Itoa 360 = ''360''" "Itoa 640 = ''640''"
  by (simp_all add: Itoa_def int_digits.simps digit_char_def)

lemma range_order_id: "range_order (\<lambda>xs. xs)"
  by (simp add: range_order_def)

lemma range_order_rev: "range_order rev"
  by (simp add: range_order_def)

lemma range_order_single: "range_order f \<Longrightarrow> f [x] = [x]"
  by (metis mset_single_iff_right mset.simps(1) mset.simps(2) range_order_def)

lemma scaleKeyBytes_empty: "scaleKeyBytes output = []"
  by (simp add: scaleKeyBytes_def)

lemma fmt_g_6500ms: "fmt_g (Seconds (Truncate 6500000000 1000)) = ''6.5''"
  by code_simp

subsection \<open>The validator\<close>

lemma validateOutput_spec:
  "validateOutput i output =
     map_option (\<lambda>r. \<lparr>ErrType = spec_rule_type r,
                       Msg = ''output '' @ Itoa i @ rule_message r output\<rparr>)
       (spec_first_violation output)"
  unfolding validateOutput_def spec_first_violation_def spec_priority_def rule_message_def
  by (simp add: cfg_consts)

lemma validateLoop_spec:
  "validateLoop (int (length pre)) rest =
     map_option (verdict_error (pre @ rest)) (spec_scan (length pre) rest)"
proof (induction rest arbitrary: pre)
  case Nil
  show ?case by simp
next
  case (Cons a rest)
  have step: "validateLoop (int (length (pre @ [a]))) rest =
     map_option (verdict_error ((pre @ [a]) @ rest)) (spec_scan (length (pre @ [a])) rest)"
    by (rule Cons.IH)
  show ?case
  proof (cases "spec_first_violation a")
    case None
    then show ?thesis using step by (simp add: validateOutput_spec add.commute)
  next
    case (Some r)
    then show ?thesis by (simp add: validateOutput_spec verdict_error_def)
  qed
qed

lemma spec_scan_None:
  "(spec_scan k outputs = None) =
     list_all (\<lambda>output. spec_first_violation output = None) outputs"
  by (induction outputs arbitrary: k) (auto split: option.splits)

text \<open>
  C5. \<open>validateOutputs\<close> returns nil exactly for a valid list (non-empty, no output
  violating a rule). Otherwise it returns one typed failure: "no outputs" for the empty
  list, and else the failure of the first output, in list order, that violates a rule,
  for the first rule it violates in the priority order quality, interval, both dimensions
  negative, width zero, height zero, sprite rows or columns below one, unknown kind,
  unknown scale behavior. The function only reads its argument: it has no store to
  return.
\<close>

theorem validateOutputs_contract:
  "validateOutputs outputs = map_option (verdict_error outputs) (spec_validate outputs)
   \<and> (validateOutputs outputs = None) =
       (outputs \<noteq> [] \<and> list_all (\<lambda>output. spec_first_violation output = None) outputs)
   \<and> map_option ErrType (validateOutputs outputs)
       = map_option verdict_type (spec_validate outputs)"
proof -
  have a: "validateOutputs outputs = map_option (verdict_error outputs) (spec_validate outputs)"
    using validateLoop_spec [of "[]" outputs]
    by (simp add: validateOutputs_def spec_validate_def verdict_error_def)
  have b: "(spec_validate outputs = None) =
       (outputs \<noteq> [] \<and> list_all (\<lambda>output. spec_first_violation output = None) outputs)"
    by (simp add: spec_validate_def spec_scan_None)
  have c: "ErrType (verdict_error outputs v) = verdict_type v" for v
    by (cases v) (simp_all add: verdict_error_def)
  show ?thesis using a b c by (simp add: option.map_comp comp_def)
qed

theorem validateOutputs_witness:
  "validateOutputs [example_thumb\<lparr>SnapshotInterval := 0\<rparr>]
     = Some \<lparr>ErrType = ValidationErrTypeSnapshotInterval,
             Msg = ''output 0 snapshot interval is less than one millesecond''\<rparr>
   \<and> validateOutputs [example_thumb\<lparr>SnapshotInterval := 1000000\<rparr>] = None
   \<and> validateOutputs
        [example_thumb,
         example_thumb\<lparr>Quality := 32, Scale := \<lparr>Width = 0, Height = 0, Behavior = 3\<rparr>\<rparr>]
     = Some \<lparr>ErrType = ValidationErrTypeQuality,
             Msg = ''output 1 has wrong quality, valid values are 1-31, got 32''\<rparr>
   \<and> validateOutputs []
     = Some \<lparr>ErrType = ValidationErrTypeNoOutputs,
             Msg = ''at least one output should be provided''\<rparr>"
  using validateOutputs_contract [of "[example_thumb\<lparr>SnapshotInterval := 0\<rparr>]"]
        validateOutputs_contract [of "[example_thumb\<lparr>SnapshotInterval := 1000000\<rparr>]"]
        validateOutputs_contract
          [of "[example_thumb,
                example_thumb\<lparr>Quality := 32,
                               Scale := \<lparr>Width = 0, Height = 0, Behavior = 3\<rparr>\<rparr>]"]
        validateOutputs_contract [of "[]"]
  by (simp add: spec_validate_def spec_first_violation_def spec_priority_def verdict_error_def
      rule_message_def example_thumb_def cfg_consts Itoa_small)

subsection \<open>The specification's example\<close>

text \<open>
  C6. For two Thumbnail outputs, both every 6500 ms and both 320x180 with fill to keep
  the aspect ratio, numbered by \<open>NewGenerator\<close>, the compiled graph is one statement: one
  \<open>select=\<close> stage, one \<open>scale=\<close> stage that goes on with a \<open>pad=\<close> directive, and one
  \<open>split=2\<close> whose branches are the terminal labels \<open>thumbs-0-out\<close> and \<open>thumbs-1-out\<close>,
  which are also the output names stored on the two outputs. This holds for every hash
  function and every order of map iteration.
\<close>

theorem two_thumbnails_example:
  assumes "range_order ro" and "\<And>k. range_order (ri k)"
  shows "\<exists>g st'. NewGenerator_filters Sum256 ro ri [example_thumb, example_thumb] = Inr (g, st')
     \<and> g = ''[0:v]select=bitor(gte(t-prev_selected_t'' @ [backslash] @ '',6.5)'' @ [backslash]
            @ '',isnan(prev_selected_t)),''
            @ ''scale=320:180:force_original_aspect_ratio=decrease,pad=320:180:-1:-1:color=black''
            @ '',split=2[thumbs-0-out][thumbs-1-out]''
     \<and> occ ''select='' g = 1 \<and> occ ''scale='' g = 1 \<and> occ ''pad='' g = 1
     \<and> occ ''split='' g = 1 \<and> occ ''split=2'' g = 1
     \<and> occ ''[thumbs-0-out]'' g = 1 \<and> occ ''[thumbs-1-out]'' g = 1
     \<and> map outName st' = [''thumbs-0-out'', ''thumbs-1-out'']"
proof -
  define t0 where "t0 = example_thumb\<lparr>idx := 0, DstPath := DefaultFilename\<rparr>"
  define t1 where "t1 = example_thumb\<lparr>idx := 1, DstPath := DefaultFilename\<rparr>"
  have st: "assignIdxLoop 0 [example_thumb, example_thumb] = [t0, t1]"
    by (simp add: t0_def t1_def example_thumb_def)
  have v: "validateOutputs [t0, t1] = None"
    by (simp add: validateOutputs_def validateOutput_def t0_def t1_def example_thumb_def
        cfg_consts)
  have g: "groupOutputs Sum256 [t0, t1] [0, 1]
             = [(6500000000, [(hex_EncodeToString (Sum256 []), [0, 1])])]"
    by (simp add: groupOutputs_def groupStep_def scaleKeyBytes_empty t0_def t1_def
        example_thumb_def cfg_consts)
  have s: "buildSplitArg [t0, t1] [0, 1]
             = ('',split=2[thumbs-0-out][thumbs-1-out]'',
                [t0\<lparr>outName := ''thumbs-0-out''\<rparr>, t1\<lparr>outName := ''thumbs-1-out''\<rparr>])"
    by (simp add: buildSplitArg_def buildSplitMany_def assignNames_def
        buildSplitArgThumbOutName_def t0_def t1_def example_thumb_def cfg_consts Itoa_small)
  have sel: "buildSelectFramesArg t0 = ''[0:v]select=bitor(gte(t-prev_selected_t''
      @ [backslash] @ '',6.5)'' @ [backslash] @ '',isnan(prev_selected_t)),''"
    by (simp add: buildSelectFramesArg_def t0_def example_thumb_def cfg_consts fmt_g_6500ms)
  have sc: "buildScaleArg (Scale t0)
      = ''scale=320:180:force_original_aspect_ratio=decrease,pad=320:180:-1:-1:color=black''"
    by (simp add: buildScaleArg_def t0_def example_thumb_def cfg_consts Itoa_small)
  have run: "NewGenerator_filters Sum256 ro ri [example_thumb, example_thumb] = Inr
      (''[0:v]select=bitor(gte(t-prev_selected_t'' @ [backslash] @ '',6.5)'' @ [backslash]
        @ '',isnan(prev_selected_t)),''
        @ ''scale=320:180:force_original_aspect_ratio=decrease,pad=320:180:-1:-1:color=black''
        @ '',split=2[thumbs-0-out][thumbs-1-out]'',
       [t0\<lparr>outName := ''thumbs-0-out''\<rparr>, t1\<lparr>outName := ''thumbs-1-out''\<rparr>])"
    unfolding NewGenerator_filters_def BuildComplexFilters_def st
    using v g s sel sc range_order_single [OF assms(1)] range_order_single [OF assms(2)]
    by simp
  show ?thesis
    unfolding run by (simp add: backslash_def)
qed

theorem two_thumbnails_witness:
  "range_order (\<lambda>g :: groups. g) \<and> range_order (\<lambda>m :: bucket_map. m)
   \<and> (\<exists>st'. NewGenerator_filters (\<lambda>bs. bs) (\<lambda>g. g) (\<lambda>k m. m) [example_thumb, example_thumb]
        = Inr (''[0:v]select=bitor(gte(t-prev_selected_t'' @ [backslash] @ '',6.5)''
               @ [backslash] @ '',isnan(prev_selected_t)),''
               @ ''scale=320:180:force_original_aspect_ratio=decrease,''
               @ ''pad=320:180:-1:-1:color=black,split=2[thumbs-0-out][thumbs-1-out]'', st')
        \<and> map outName st' = [''thumbs-0-out'', ''thumbs-1-out''])"
proof -
  have a: "range_order (\<lambda>g :: groups. g)"
    by (rule range_order_id)
  have b: "range_order (\<lambda>m :: bucket_map. m)"
    by (rule range_order_id)
  show ?thesis
    using two_thumbnails_example [of "\<lambda>g. g" "\<lambda>k m. m" "\<lambda>bs. bs", OF a b] a b
    by auto
qed

subsection \<open>A bucket that mixes Sprite and Thumbnail outputs\<close>

text \<open>
  C2. The claim asks for exactly one \<open>;\<close> between consecutive statements and none at the
  end, also when a bucket mixes Sprite and Thumbnail outputs. The third loop of
  \<open>buildSplitArg\<close> compares its counter with the size of the whole bucket and not with
  the number of Sprite outputs, so for the bucket of one Sprite and one Thumbnail output
  it writes a \<open>;\<close> after the last tiling statement: the graph ends with a delimiter.
\<close>

theorem mixed_bucket_trailing_delimiter:
  assumes "range_order ro" and "\<And>k. range_order (ri k)"
  shows "\<exists>g st'. NewGenerator_filters Sum256 ro ri [example_sprite, example_thumb] = Inr (g, st')
     \<and> g = ''[0:v]select=bitor(gte(t-prev_selected_t'' @ [backslash] @ '',6.5)'' @ [backslash]
            @ '',isnan(prev_selected_t)),''
            @ ''scale=320:180:force_original_aspect_ratio=decrease,pad=320:180:-1:-1:color=black''
            @ '',split=2[sprites-0][thumbs-1-out]''
            @ '';[sprites-0]tile=4x8[sprites-0-out];''
     \<and> last g = CHR '';''"
proof -
  define t0 where "t0 = example_sprite\<lparr>idx := 0, DstPath := DefaultFilename\<rparr>"
  define t1 where "t1 = example_thumb\<lparr>idx := 1, DstPath := DefaultFilename\<rparr>"
  have st: "assignIdxLoop 0 [example_sprite, example_thumb] = [t0, t1]"
    by (simp add: t0_def t1_def example_thumb_def example_sprite_def)
  have v: "validateOutputs [t0, t1] = None"
    by (simp add: validateOutputs_def validateOutput_def t0_def t1_def example_thumb_def
        example_sprite_def cfg_consts)
  have g: "groupOutputs Sum256 [t0, t1] [0, 1]
             = [(6500000000, [(hex_EncodeToString (Sum256 []), [0, 1])])]"
    by (simp add: groupOutputs_def groupStep_def scaleKeyBytes_empty t0_def t1_def
        example_thumb_def example_sprite_def cfg_consts)
  have s: "buildSplitArg [t0, t1] [0, 1]
             = ('',split=2[sprites-0][thumbs-1-out];[sprites-0]tile=4x8[sprites-0-out];'',
                [t0\<lparr>inName := ''sprites-0'', outName := ''sprites-0-out''\<rparr>,
                 t1\<lparr>outName := ''thumbs-1-out''\<rparr>])"
    by (simp add: buildSplitArg_def buildSplitMany_def assignNames_def
        buildSplitArgThumbOutName_def buildSplitArgSpiteInOutNames_def buildSplitSpriteArg_def
        buildSplitSpriteTileArg_def writeFilterOutputName_def
        t0_def t1_def example_thumb_def example_sprite_def cfg_consts Itoa_small)
  have sel: "buildSelectFramesArg t0 = ''[0:v]select=bitor(gte(t-prev_selected_t''
      @ [backslash] @ '',6.5)'' @ [backslash] @ '',isnan(prev_selected_t)),''"
    by (simp add: buildSelectFramesArg_def t0_def example_sprite_def cfg_consts fmt_g_6500ms)
  have sc: "buildScaleArg (Scale t0)
      = ''scale=320:180:force_original_aspect_ratio=decrease,pad=320:180:-1:-1:color=black''"
    by (simp add: buildScaleArg_def t0_def example_sprite_def cfg_consts Itoa_small)
  have run: "NewGenerator_filters Sum256 ro ri [example_sprite, example_thumb] = Inr
      (''[0:v]select=bitor(gte(t-prev_selected_t'' @ [backslash] @ '',6.5)'' @ [backslash]
        @ '',isnan(prev_selected_t)),''
        @ ''scale=320:180:force_original_aspect_ratio=decrease,pad=320:180:-1:-1:color=black''
        @ '',split=2[sprites-0][thumbs-1-out]''
        @ '';[sprites-0]tile=4x8[sprites-0-out];'',
       [t0\<lparr>inName := ''sprites-0'', outName := ''sprites-0-out''\<rparr>,
        t1\<lparr>outName := ''thumbs-1-out''\<rparr>])"
    unfolding NewGenerator_filters_def BuildComplexFilters_def st
    using v g s sel sc range_order_single [OF assms(1)] range_order_single [OF assms(2)]
    by simp
  show ?thesis
    unfolding run by simp
qed

theorem mixed_bucket_witness:
  "range_order (\<lambda>g :: groups. g) \<and> range_order (\<lambda>m :: bucket_map. m)
   \<and> (\<exists>g st'. NewGenerator_filters (\<lambda>bs. bs) (\<lambda>g. g) (\<lambda>k m. m) [example_sprite, example_thumb]
        = Inr (g, st') \<and> last g = CHR '';'')"
proof -
  have a: "range_order (\<lambda>g :: groups. g)"
    by (rule range_order_id)
  have b: "range_order (\<lambda>m :: bucket_map. m)"
    by (rule range_order_id)
  show ?thesis
    using mixed_bucket_trailing_delimiter [of "\<lambda>g. g" "\<lambda>k m. m" "\<lambda>bs. bs", OF a b] a b
    by auto
qed

subsection \<open>Progress parsing\<close>

lemma latest_Cons: "latest pat cur (l # ls) = latest pat (assign pat cur l) ls"
  by (simp add: latest_def)

lemma latest_Nil: "latest pat cur [] = cur"
  by (simp add: latest_def)

lemma latest_snoc: "latest pat cur (ls @ [l]) = assign pat (latest pat cur ls) l"
  by (simp add: latest_def)

lemma upt_0_Suc_map: "map f [0..<Suc n] = f 0 # map (\<lambda>i. f (Suc i)) [0..<n]"
  by (simp add: upt_conv_Cons map_Suc_upt [symmetric] del: upt_Suc)

lemma listenLoop_events:
  "listenLoop a p t s ts =
     concat (map (\<lambda>i. if progressPattern (ts ! i) \<noteq> None
                       then [progress_update a (latest progressPattern p (take (Suc i) ts))
                               (latest outTimePattern t (take (Suc i) ts))
                               (latest speedPattern s (take (Suc i) ts))]
                       else [])
               [0..<length ts])"
proof (induction ts arbitrary: p t s)
  case Nil
  show ?case by simp
next
  case (Cons l ts)
  show ?case
    by (simp only: listenLoop.simps Cons.IH length_Cons upt_0_Suc_map concat.simps
        nth_Cons_0 nth_Cons_Suc take_Suc_Cons latest_Cons latest_Nil take_0)
qed

lemma listenLoop_append:
  "listenLoop a p t s (xs @ ys) =
     listenLoop a p t s xs
     @ listenLoop a (latest progressPattern p xs) (latest outTimePattern t xs)
         (latest speedPattern s xs) ys"
  by (induction xs arbitrary: p t s) (simp_all add: latest_Cons latest_Nil)

lemma latest_the:
  "pat (ts ! i) \<noteq> None \<Longrightarrow> i < length ts \<Longrightarrow> latest pat cur (take (Suc i) ts) = the (pat (ts ! i))"
  by (auto simp: take_Suc_conv_app_nth latest_snoc assign_def)

lemma length_concat_if:
  "length (concat (map (\<lambda>i. if P (ts ! i) then [f i] else []) [0..<length ts]))
     = length (filter P ts)"
proof (induction ts rule: rev_induct)
  case Nil
  show ?case by simp
next
  case (snoc x xs)
  have e: "map (\<lambda>i. if P ((xs @ [x]) ! i) then [f i] else []) [0..<length xs]
      = map (\<lambda>i. if P (xs ! i) then [f i] else []) [0..<length xs]"
    by (rule map_cong) (simp_all add: nth_append)
  have "length (concat (map (\<lambda>i. if P ((xs @ [x]) ! i) then [f i] else [])
                          [0..<length (xs @ [x])]))
      = length (concat (map (\<lambda>i. if P ((xs @ [x]) ! i) then [f i] else []) [0..<length xs]))
        + length (if P ((xs @ [x]) ! length xs) then [f (length xs)] else [])"
    by (simp only: length_append list.size upt_Suc_append le0 map_append concat_append
        list.map concat.simps append_Nil2 add_Suc_right add_0_right)
  also have "\<dots> = length (filter P xs) + (if P x then 1 else 0)"
    by (simp add: e snoc.IH)
  finally show ?case by simp
qed

text \<open>
  C9 (amended). The listener logs one progress event for every scanned line that matches
  the progress pattern, whether or not the token differs from the one before; the event
  carries the matched token and the values of \<open>out_time\<close> and \<open>speed\<close> last seen up to and
  including that line (empty when none was seen). A line that matches no pattern changes
  nothing. Lines are scanned up to the first one of 65536 bytes or more, where the
  scanner stops and the loop ends without an error.
\<close>

theorem progress_events:
  "listenForProgressLogs slogArgs stdout =
     concat (map (\<lambda>i. if progressPattern (scanLines stdout ! i) \<noteq> None
                       then [progress_update slogArgs
                               (the (progressPattern (scanLines stdout ! i)))
                               (latest outTimePattern [] (take (Suc i) (scanLines stdout)))
                               (latest speedPattern [] (take (Suc i) (scanLines stdout)))]
                       else [])
               [0..<length (scanLines stdout)])
   \<and> length (listenForProgressLogs slogArgs stdout)
       = length (filter (\<lambda>l. progressPattern l \<noteq> None) (scanLines stdout))
   \<and> (progressPattern l = None \<and> outTimePattern l = None \<and> speedPattern l = None
       \<longrightarrow> listenLoop slogArgs p t s (pre @ l # post) = listenLoop slogArgs p t s (pre @ post))"
proof -
  let ?ts = "scanLines stdout"
  have a: "listenForProgressLogs slogArgs stdout =
     concat (map (\<lambda>i. if progressPattern (?ts ! i) \<noteq> None
                       then [progress_update slogArgs
                               (latest progressPattern [] (take (Suc i) ?ts))
                               (latest outTimePattern [] (take (Suc i) ?ts))
                               (latest speedPattern [] (take (Suc i) ?ts))]
                       else [])
               [0..<length ?ts])"
    by (simp only: listenForProgressLogs_def listenLoop_events)
  have b: "map (\<lambda>i. if progressPattern (?ts ! i) \<noteq> None
                       then [progress_update slogArgs
                               (latest progressPattern [] (take (Suc i) ?ts))
                               (latest outTimePattern [] (take (Suc i) ?ts))
                               (latest speedPattern [] (take (Suc i) ?ts))]
                       else []) [0..<length ?ts]
         = map (\<lambda>i. if progressPattern (?ts ! i) \<noteq> None
                       then [progress_update slogArgs
                               (the (progressPattern (?ts ! i)))
                               (latest outTimePattern [] (take (Suc i) ?ts))
                               (latest speedPattern [] (take (Suc i) ?ts))]
                       else []) [0..<length ?ts]"
    by (rule map_cong) (auto simp: latest_the)
  have c: "length (listenForProgressLogs slogArgs stdout)
       = length (filter (\<lambda>l. progressPattern l \<noteq> None) ?ts)"
    unfolding a by (rule length_concat_if)
  have d: "progressPattern l = None \<and> outTimePattern l = None \<and> speedPattern l = None
       \<longrightarrow> listenLoop slogArgs p t s (pre @ l # post) = listenLoop slogArgs p t s (pre @ post)"
    by (simp add: listenLoop_append assign_def)
  have a': "listenForProgressLogs slogArgs stdout =
     concat (map (\<lambda>i. if progressPattern (?ts ! i) \<noteq> None
                       then [progress_update slogArgs
                               (the (progressPattern (?ts ! i)))
                               (latest outTimePattern [] (take (Suc i) ?ts))
                               (latest speedPattern [] (take (Suc i) ?ts))]
                       else [])
               [0..<length ?ts])"
    by (simp only: a b)
  show ?thesis by (intro conjI a' c d)
qed

theorem progress_events_witness:
  "listenForProgressLogs []
     [''frame=1 fps=0.0'', ''out_time=00:00:06.500000'', ''speed=13x'', ''progress=continue'',
      ''garbage'', ''progress=end'']
   = [progress_update [] ''continue'' ''00:00:06.500000'' ''13x'',
      progress_update [] ''end'' ''00:00:06.500000'' ''13x'']"
  using progress_events
          [of "[]" "[''frame=1 fps=0.0'', ''out_time=00:00:06.500000'', ''speed=13x'',
                     ''progress=continue'', ''garbage'', ''progress=end'']"]
  by (simp add: listenForProgressLogs_def MaxScanTokenSize_def dropCR_def progressPattern_def
      outTimePattern_def speedPattern_def is_word_char_def assign_def)

lemma pp_continue: "progressPattern ''progress=continue'' = Some ''continue''"
  by (simp add: progressPattern_def is_word_char_def)

lemma pp_end: "progressPattern ''progress=end'' = Some ''end''"
  by (simp add: progressPattern_def is_word_char_def)

lemma ot_none: "outTimePattern ''progress=continue'' = None"
  by (simp add: outTimePattern_def)

lemma sp_none: "speedPattern ''progress=continue'' = None"
  by (simp add: speedPattern_def)

text \<open>
  The claim as stated fails: two lines with the same progress token give two events, and
  a progress line after an overlong line gives none.
\<close>

theorem progress_counterexample:
  "listenForProgressLogs [] [''progress=continue'', ''progress=continue'']
     = [progress_update [] ''continue'' [] [], progress_update [] ''continue'' [] []]
   \<and> progressPattern ''progress=end'' = Some ''end''
   \<and> listenForProgressLogs [] [replicate 65536 (CHR ''x''), ''progress=end''] = []"
  by (simp add: listenForProgressLogs_def MaxScanTokenSize_def dropCR_def pp_continue pp_end
      ot_none sp_none assign_def)


subsection \<open>The result of \<open>Generate\<close>\<close>




subsection \<open>Grouping\<close>

lemma groupOutputs_snoc:
  "groupOutputs Sum256 st (ps @ [p]) = groupStep Sum256 st (groupOutputs Sum256 st ps) p"
  by (simp add: groupOutputs_def)

lemma groupStep_new:
  assumes "map_of G (SnapshotInterval (st ! p)) = None"
  shows "groupStep Sum256 st G p
           = AList.update (SnapshotInterval (st ! p)) [(hashKey Sum256, [p])] G"
  using assms by (simp add: groupStep_def scaleKeyBytes_empty hashKey_def)

lemma groupStep_old:
  assumes "map_of G (SnapshotInterval (st ! p)) = Some [(hashKey Sum256, F)]"
  shows "groupStep Sum256 st G p
           = AList.update (SnapshotInterval (st ! p)) [(hashKey Sum256, F @ [p])] G"
  using assms by (simp add: groupStep_def scaleKeyBytes_empty hashKey_def)

lemma groupOutputs_map_of:
  "distinct (map fst (groupOutputs Sum256 st ps))
   \<and> (\<forall>k. map_of (groupOutputs Sum256 st ps) k
          = (if k \<in> (\<lambda>p. SnapshotInterval (st ! p)) ` set ps
             then Some [(hashKey Sum256, bucketOf st ps k)] else None))"
proof (induction ps rule: rev_induct)
  case Nil
  show ?case by (simp add: groupOutputs_def)
next
  case (snoc p ps)
  let ?G = "groupOutputs Sum256 st ps"
  let ?k0 = "SnapshotInterval (st ! p)"
  from snoc have d: "distinct (map fst ?G)" by simp
  from snoc have m: "\<And>k. map_of ?G k
          = (if k \<in> (\<lambda>p. SnapshotInterval (st ! p)) ` set ps
             then Some [(hashKey Sum256, bucketOf st ps k)] else None)" by simp
  show ?case
  proof (cases "?k0 \<in> (\<lambda>p. SnapshotInterval (st ! p)) ` set ps")
    case True
    then have e: "map_of ?G ?k0 = Some [(hashKey Sum256, bucketOf st ps ?k0)]"
      by (simp add: m)
    have s: "groupOutputs Sum256 st (ps @ [p])
       = AList.update ?k0 [(hashKey Sum256, bucketOf st ps ?k0 @ [p])] ?G"
      by (simp only: groupOutputs_snoc groupStep_old [OF e])
    show ?thesis
      unfolding s using d m True
      by (auto simp: distinct_update update_conv' bucketOf_def)
  next
    case False
    then have e: "map_of ?G ?k0 = None"
      by (simp add: m)
    have ne: "SnapshotInterval (st ! x) \<noteq> ?k0" if "x \<in> set ps" for x
    proof
      assume "SnapshotInterval (st ! x) = ?k0"
      then have "?k0 \<in> (\<lambda>p. SnapshotInterval (st ! p)) ` set ps"
        using that by (intro image_eqI [where x = x]) simp_all
      with False show False ..
    qed
    have b: "bucketOf st ps ?k0 = []"
      using ne by (simp add: bucketOf_def filter_empty_conv)
    have s: "groupOutputs Sum256 st (ps @ [p]) = AList.update ?k0 [(hashKey Sum256, [p])] ?G"
      by (simp only: groupOutputs_snoc groupStep_new [OF e])
    show ?thesis
      unfolding s using d m False b
      by (auto simp: distinct_update update_conv' bucketOf_def)
  qed
qed

lemma groupOutputs_set:
  "set (groupOutputs Sum256 st ps)
     = (\<lambda>k. (k, [(hashKey Sum256, bucketOf st ps k)])) ` (\<lambda>p. SnapshotInterval (st ! p)) ` set ps"
proof -
  let ?G = "groupOutputs Sum256 st ps"
  have d: "distinct (map fst ?G)" using groupOutputs_map_of by blast
  have "(k, v) \<in> set ?G \<longleftrightarrow> map_of ?G k = Some v" for k v
    using d by simp
  then show ?thesis
    using groupOutputs_map_of [of Sum256 st ps] by (auto split: if_splits)
qed

lemma groupOutputs_length:
  "length (groupOutputs Sum256 st ps) = card ((\<lambda>p. SnapshotInterval (st ! p)) ` set ps)"
proof -
  let ?G = "groupOutputs Sum256 st ps"
  have d: "distinct (map fst ?G)" using groupOutputs_map_of by blast
  have "length ?G = card (set (map fst ?G))"
    using d by (metis distinct_card length_map)
  also have "set (map fst ?G) = (\<lambda>p. SnapshotInterval (st ! p)) ` set ps"
    by (auto simp: groupOutputs_set image_image)
  finally show ?thesis .
qed

subsection \<open>Names and the split stage\<close>

lemma assignNames_idem: "assignNames (assignNames x) = assignNames x"
  by (simp add: assignNames_def buildSplitArgThumbOutName_def buildSplitArgSpiteInOutNames_def
      cfg_consts)

lemma assignNames_fields:
  "SnapshotInterval (assignNames x) = SnapshotInterval x"
  "Scale (assignNames x) = Scale x"
  "Type (assignNames x) = Type x"
  "idx (assignNames x) = idx x"
  "Quality (assignNames x) = Quality x"
  "Sprites (assignNames x) = Sprites x"
  "DstPath (assignNames x) = DstPath x"
  by (simp_all add: assignNames_def)

lemma assignNamesLoop_length: "length (assignNamesLoop st ps) = length st"
  by (induction ps arbitrary: st) simp_all

lemma assignNamesLoop_nth:
  "p < length st \<Longrightarrow>
   assignNamesLoop st ps ! p = (if p \<in> set ps then assignNames (st ! p) else st ! p)"
proof (induction ps arbitrary: st)
  case Nil
  show ?case by simp
next
  case (Cons q ps)
  let ?st = "st[q := assignNames (st ! q)]"
  have l: "p < length ?st" using Cons.prems by simp
  have ih: "assignNamesLoop ?st ps ! p = (if p \<in> set ps then assignNames (?st ! p) else ?st ! p)"
    by (rule Cons.IH [OF l])
  show ?case
  proof (cases "p = q")
    case True
    then have "?st ! p = assignNames (st ! p)" using Cons.prems by simp
    then show ?thesis using ih True by (simp add: assignNames_idem)
  next
    case False
    then have "?st ! p = st ! p" by simp
    then show ?thesis using ih False by simp
  qed
qed

lemma assigned_same: "assigned st {} st"
  by (simp add: assigned_def)

lemma assigned_step:
  assumes "assigned st A st'"
  shows "assigned st (A \<union> set ps) (assignNamesLoop st' ps)"
  using assms
  by (auto simp: assigned_def assignNamesLoop_length assignNamesLoop_nth assignNames_idem)

lemma assigned_nth_cfg:
  assumes "assigned st A st'" "p < length st"
  shows "SnapshotInterval (st' ! p) = SnapshotInterval (st ! p)"
    and "Scale (st' ! p) = Scale (st ! p)"
    and "assignNames (st' ! p) = assignNames (st ! p)"
  using assms by (auto simp: assigned_def assignNames_fields assignNames_idem)

lemma splitLabels_cong:
  "(\<forall>p \<in> set ps. a ! p = b ! p) \<Longrightarrow> splitLabels a bld need ps = splitLabels b bld need ps"
  by (induction ps arbitrary: bld need) simp_all

lemma splitLabels_need:
  "snd (splitLabels a bld need ps)
     = need @ filter (\<lambda>p. Type (a ! p) = OutputTypeSprites) ps"
  by (induction ps arbitrary: bld need) (simp_all add: cfg_consts)

lemma extendedLoop_cong:
  "(\<forall>p \<in> set need. a ! p = b ! p) \<Longrightarrow> extendedLoop a n i bld need = extendedLoop b n i bld need"
  by (induction need arbitrary: i bld) simp_all

lemma buildSplitMany_cong:
  assumes "\<forall>p \<in> set ps. a ! p = b ! p"
  shows "buildSplitMany a ps = buildSplitMany b ps"
proof -
  have s: "splitLabels a bld need ps = splitLabels b bld need ps" for bld need
    using assms by (rule splitLabels_cong)
  have "\<forall>p \<in> set (snd (splitLabels b ('',split='' @ Itoa (int (length ps))) [] ps)). a ! p = b ! p"
    using assms by (simp add: splitLabels_need)
  then show ?thesis
    by (simp add: buildSplitMany_def s extendedLoop_cong)
qed

lemma buildSplitArg_assigned:
  assumes "assigned st A st'" and "set ps \<subseteq> {..<length st}"
  shows "fst (buildSplitArg st' ps) = fst (buildSplitArg st ps)"
    and "snd (buildSplitArg st' ps) = assignNamesLoop st' ps"
proof -
  have len: "length st' = length st" using assms(1) by (simp add: assigned_def)
  have agree: "\<forall>p \<in> set ps. assignNamesLoop st' ps ! p = assignNamesLoop st ps ! p"
    using assms len by (auto simp: assignNamesLoop_nth assigned_nth_cfg(3))
  show "snd (buildSplitArg st' ps) = assignNamesLoop st' ps"
    by (simp add: buildSplitArg_def)
  show "fst (buildSplitArg st' ps) = fst (buildSplitArg st ps)"
  proof (cases "length ps = 1")
    case True
    then have "hd ps \<in> set ps" by (cases ps) simp_all
    then show ?thesis using True agree by (simp add: buildSplitArg_def)
  next
    case False
    then show ?thesis
      using buildSplitMany_cong [OF agree] by (simp add: buildSplitArg_def)
  qed
qed

lemma statementFor_assigned:
  assumes "assigned st A st'" and "set ps \<subseteq> {..<length st}" and "ps \<noteq> []"
  shows "buildSelectFramesArg (st' ! hd ps) @ buildScaleArg (Scale (st' ! hd ps))
         @ fst (buildSplitArg st' ps) = statementFor st ps"
proof -
  have "hd ps < length st" using assms(2,3) by (cases ps) auto
  then show ?thesis
    using assms
    by (simp add: statementFor_def buildSplitArg_assigned(1) assigned_nth_cfg
        buildSelectFramesArg_def)
qed

lemma buildMain_wellformed:
  assumes "\<And>k. range_order (ri k)"
    and "\<forall>g \<in> set L. wellformed_group st g"
    and "assigned st A st'"
  shows "\<exists>st''. buildMain ri n m b st' L
           = Inr (b @ joinFrom n m (map (\<lambda>g. statementFor st (group_bucket g)) L), st'')
         \<and> assigned st (A \<union> \<Union> (set (map (set \<circ> group_bucket) L))) st''"
  using assms(2,3)
proof (induction L arbitrary: m b st' A)
  case Nil
  then show ?case by simp
next
  case (Cons g L)
  from Cons.prems(1) obtain h ps where g: "snd g = [(h, ps)]" "ps \<noteq> []"
      "set ps \<subseteq> {..<length st}"
    by (auto simp: wellformed_group_def)
  obtain p0 rest where ps: "ps = p0 # rest" using g(2) by (cases ps) auto
  have ri: "ri (fst g) (snd g) = [(h, ps)]"
    using range_order_single [OF assms(1)] g(1) by simp
  have gb: "group_bucket g = ps" by (simp add: group_bucket_def g(1))
  have stmt: "buildSelectFramesArg (st' ! p0) @ buildScaleArg (Scale (st' ! p0))
         @ fst (buildSplitArg st' ps) @ t = statementFor st ps @ t" for t
    using statementFor_assigned [OF Cons.prems(2) g(3) g(2)] ps
    by (metis append.assoc list.sel(1))
  have nxt: "assigned st (A \<union> set ps) (snd (buildSplitArg st' ps))"
    using assigned_step [OF Cons.prems(2)] buildSplitArg_assigned(2) [OF Cons.prems(2) g(3)]
    by simp
  have wf: "\<forall>g \<in> set L. wellformed_group st g" using Cons.prems(1) by simp
  from Cons.IH [OF wf nxt]
  obtain st'' where r: "buildMain ri n (Suc m)
          (b @ statementFor st ps @ (if Suc m < n then '';'' else []))
          (snd (buildSplitArg st' ps)) L
        = Inr ((b @ statementFor st ps @ (if Suc m < n then '';'' else []))
               @ joinFrom n (Suc m) (map (\<lambda>g. statementFor st (group_bucket g)) L), st'')"
     and a: "assigned st ((A \<union> set ps) \<union> \<Union> (set (map (set \<circ> group_bucket) L))) st''"
    by blast
  have step: "buildMain ri n m b st' (g # L)
      = buildMain ri n (Suc m) (b @ statementFor st ps @ (if Suc m < n then '';'' else []))
          (snd (buildSplitArg st' ps)) L"
  proof -
    have "buildMain ri n m b st' (g # L)
      = buildMain ri n (Suc m)
          (b @ buildSelectFramesArg (st' ! p0) @ buildScaleArg (Scale (st' ! p0))
           @ fst (buildSplitArg st' ps) @ (if Suc m < n then '';'' else []))
          (snd (buildSplitArg st' ps)) L"
      using g(1) ri ps by simp
    then show ?thesis by (simp only: stmt)
  qed
  show ?case
  proof (intro exI conjI)
    show "buildMain ri n m b st' (g # L)
       = Inr (b @ joinFrom n m (map (\<lambda>g. statementFor st (group_bucket g)) (g # L)), st'')"
      by (simp only: step r list.map joinFrom.simps gb append_assoc)
    show "assigned st (A \<union> \<Union> (set (map (set \<circ> group_bucket) (g # L)))) st''"
      using a by (simp add: gb Un_assoc)
  qed
qed

subsection \<open>The graph of a valid list\<close>

lemma range_order_set: "range_order f \<Longrightarrow> set (f xs) = set xs"
  by (metis range_order_def set_mset_mset)

lemma range_order_length: "range_order f \<Longrightarrow> length (f xs) = length xs"
  by (metis range_order_def size_mset)

lemma bucketAt_mem: "p \<in> set (bucketAt st k) \<longleftrightarrow> p < length st \<and> SnapshotInterval (st ! p) = k"
  by (auto simp: bucketAt_def bucketOf_def)

lemma groups_wellformed:
  assumes "g \<in> set (groupOutputs Sum256 st [0..<length st])"
  shows "wellformed_group st g" and "group_bucket g = bucketAt st (fst g)"
    and "snd g = [(hashKey Sum256, bucketAt st (fst g))]"
    and "fst g \<in> SnapshotInterval ` set st"
proof -
  from assms obtain p where p: "p < length st"
      and g: "g = (SnapshotInterval (st ! p),
                   [(hashKey Sum256, bucketOf st [0..<length st] (SnapshotInterval (st ! p)))])"
    by (auto simp: groupOutputs_set)
  have "p \<in> set (bucketAt st (fst g))" using p g by (simp add: bucketAt_mem)
  then have ne: "bucketAt st (fst g) \<noteq> []" by auto
  have sub: "set (bucketAt st (fst g)) \<subseteq> {..<length st}" by (auto simp: bucketAt_mem)
  show "snd g = [(hashKey Sum256, bucketAt st (fst g))]" by (simp add: g bucketAt_def)
  then show "wellformed_group st g" using ne sub by (auto simp: wellformed_group_def)
  show "group_bucket g = bucketAt st (fst g)" by (simp add: g bucketAt_def group_bucket_def)
  show "fst g \<in> SnapshotInterval ` set st" using p g nth_mem [OF p] by auto
qed

lemma groups_cover:
  assumes "p < length st"
  shows "\<exists>g \<in> set (groupOutputs Sum256 st [0..<length st]). p \<in> set (group_bucket g)"
proof -
  let ?g = "(SnapshotInterval (st ! p),
             [(hashKey Sum256, bucketOf st [0..<length st] (SnapshotInterval (st ! p)))])"
  have "?g \<in> set (groupOutputs Sum256 st [0..<length st])"
    using assms by (auto simp: groupOutputs_set)
  moreover have "p \<in> set (group_bucket ?g)"
    using assms by (simp add: group_bucket_def bucketOf_def)
  ultimately show ?thesis by blast
qed

lemma validateOutputs_nonempty: "validateOutputs st = None \<Longrightarrow> st \<noteq> []"
  by (auto simp: validateOutputs_def)

lemma BuildComplexFilters_graph:
  assumes "validateOutputs st = None" and "range_order ro" and "\<And>k. range_order (ri k)"
  shows "BuildComplexFilters Sum256 ro ri st =
     Inr (joinFrom (length (groupOutputs Sum256 st [0..<length st])) 0
            (map (\<lambda>g. statementFor st (bucketAt st (fst g)))
               (ro (groupOutputs Sum256 st [0..<length st]))),
          map assignNames st)"
proof -
  let ?G = "groupOutputs Sum256 st [0..<length st]"
  have s: "set (ro ?G) = set ?G" using assms(2) by (rule range_order_set)
  have wf: "\<forall>g \<in> set (ro ?G). wellformed_group st g"
    using s groups_wellformed(1) by blast
  from buildMain_wellformed [where ri = ri and n = "length ?G" and m = 0 and b = "[]",
        OF assms(3) wf assigned_same]
  obtain st'' where r: "buildMain ri (length ?G) 0 [] st (ro ?G)
        = Inr (joinFrom (length ?G) 0 (map (\<lambda>g. statementFor st (group_bucket g)) (ro ?G)), st'')"
      and a: "assigned st (\<Union>x\<in>set (ro ?G). set (group_bucket x)) st''"
    by auto
  have m: "map (\<lambda>g. statementFor st (group_bucket g)) (ro ?G)
         = map (\<lambda>g. statementFor st (bucketAt st (fst g))) (ro ?G)"
    by (rule map_cong) (use s groups_wellformed(2) in auto)
  have all: "p \<in> (\<Union>x\<in>set (ro ?G). set (group_bucket x))" if "p < length st" for p
    using groups_cover [OF that, of Sum256] s by auto
  have "st'' = map assignNames st"
  proof (rule nth_equalityI)
    show "length st'' = length (map assignNames st)" using a by (simp add: assigned_def)
  next
    fix p assume "p < length st''"
    then have p: "p < length st" using a by (simp add: assigned_def)
    then show "st'' ! p = map assignNames st ! p"
      using a all [OF p] by (simp add: assigned_def)
  qed
  then show ?thesis
    using r m assms(1) by (simp add: BuildComplexFilters_def)
qed

subsection \<open>Counting \<open>scale=\<close>\<close>

lemma digit_char_digit': "d < 10 \<Longrightarrow> digit_char d \<in> set ''0123456789''"
  unfolding digit_char_def by (rule nth_mem) simp

lemma int_digits_digits: "set (int_digits n) \<subseteq> set ''0123456789''"
proof -
  define D where "D = set ''0123456789''"
  have d: "digit_char k \<in> D" if "k < 10" for k
    unfolding D_def using that by (rule digit_char_digit')
  have "set (int_digits n) \<subseteq> D"
  proof (induction n rule: int_digits.induct)
    case (1 n)
    show ?case
    proof (cases "n < 10")
      case True
      have "int_digits n = [digit_char n]"
        by (subst int_digits.simps) (simp only: True if_True)
      then show ?thesis
        using d [OF True] by simp
    next
      case False
      have m: "n mod 10 < 10" by simp
      have e: "int_digits n = int_digits (n div 10) @ [digit_char (n mod 10)]"
        by (subst int_digits.simps) (simp only: False if_False)
      show ?thesis
        unfolding e using 1 [OF False] d [OF m] by simp
    qed
  qed
  then show ?thesis by (simp only: D_def)
qed


lemma int_digits_no_s: "CHR ''s'' \<notin> set (int_digits n)"
proof -
  have "CHR ''s'' \<notin> set ''0123456789''" by simp
  then show ?thesis using int_digits_digits [of n] by blast
qed

lemma Itoa_no_s: "CHR ''s'' \<notin> set (Itoa n)"
  by (simp add: Itoa_def int_digits_no_s)

lemma fmtE_no_s: "CHR ''s'' \<notin> set ds \<Longrightarrow> CHR ''s'' \<notin> set (fmtE ds dp)"
proof -
  assume a: "CHR ''s'' \<notin> set ds"
  have t: "CHR ''s'' \<notin> set (take 1 ds)" using a by (meson in_set_takeD)
  have d: "CHR ''s'' \<notin> set (drop 1 ds)" using a by (meson in_set_dropD)
  show ?thesis
    unfolding fmtE_def using t d int_digits_no_s [of "\<bar>dp - 1\<bar>"]
    by simp
qed

lemma fmtF_no_s: "CHR ''s'' \<notin> set ds \<Longrightarrow> CHR ''s'' \<notin> set (fmtF ds dp)"
proof -
  assume a: "CHR ''s'' \<notin> set ds"
  have t: "CHR ''s'' \<notin> set (take (nat dp) ds)" using a by (meson in_set_takeD)
  have d: "CHR ''s'' \<notin> set (drop (nat dp) ds)" using a by (meson in_set_dropD)
  show ?thesis
    unfolding fmtF_def using t d by simp
qed

lemma fmt_g_no_s: "CHR ''s'' \<notin> set (fmt_g x)"
  by (simp add: fmt_g_def fmt_digits_def fmt_layout_def fmtE_no_s fmtF_no_s int_digits_no_s)

lemma occ_no_s: "CHR ''s'' \<notin> set t \<Longrightarrow> occ ''scale='' (t @ u) = occ ''scale='' u"
  by (induction t) auto

lemma occ_Itoa: "occ ''scale='' (Itoa n @ u) = occ ''scale='' u"
  by (rule occ_no_s [OF Itoa_no_s])

lemma occ_fmt_g: "occ ''scale='' (fmt_g x @ u) = occ ''scale='' u"
  by (rule occ_no_s [OF fmt_g_no_s])

lemma occ_select: "occ ''scale='' (buildSelectFramesArg output @ u) = occ ''scale='' u"
  by (simp add: buildSelectFramesArg_def backslash_def occ_fmt_g)

lemma occ_scale: "occ ''scale='' (buildScaleArg scale @ u) = Suc (occ ''scale='' u)"
  by (simp add: buildScaleArg_def occ_Itoa)

lemma occ_thumb_name:
  "occ ''scale='' (buildSplitArgThumbOutName x @ u) = occ ''scale='' u"
  by (simp add: buildSplitArgThumbOutName_def occ_Itoa)

lemma occ_sprite_names:
  "occ ''scale='' (fst (buildSplitArgSpiteInOutNames x) @ u) = occ ''scale='' u"
  "occ ''scale='' (snd (buildSplitArgSpiteInOutNames x) @ u) = occ ''scale='' u"
  by (simp_all add: buildSplitArgSpiteInOutNames_def occ_Itoa)

lemma occ_tile: "occ ''scale='' (buildSplitSpriteTileArg x @ u) = occ ''scale='' u"
  by (simp add: buildSplitSpriteTileArg_def occ_Itoa)

lemma occ_branchLabel: "occ ''scale='' (branchLabel x @ u) = occ ''scale='' u"
  by (simp add: branchLabel_def occ_thumb_name occ_sprite_names)

lemma occ_branchLabels:
  "occ ''scale='' (concat (map (\<lambda>p. branchLabel (st ! p)) ps) @ u) = occ ''scale='' u"
  by (induction ps) (simp_all add: occ_branchLabel)

lemma assignNames_names:
  "Type x = OutputTypeThumbs \<Longrightarrow> outName (assignNames x) = buildSplitArgThumbOutName x"
  "Type x = OutputTypeSprites \<Longrightarrow> inName (assignNames x) = fst (buildSplitArgSpiteInOutNames x)"
  "Type x = OutputTypeSprites \<Longrightarrow> outName (assignNames x) = snd (buildSplitArgSpiteInOutNames x)"
  by (simp_all add: assignNames_def cfg_consts)

lemma splitLabels_explicit:
  assumes "\<forall>p \<in> set ps. a ! p = assignNames (st ! p)"
  shows "fst (splitLabels a bld need ps) = bld @ concat (map (\<lambda>p. branchLabel (st ! p)) ps)"
  using assms
proof (induction ps arbitrary: bld need)
  case Nil
  show ?case by simp
next
  case (Cons p ps)
  have a: "a ! p = assignNames (st ! p)" using Cons.prems by simp
  have r: "\<forall>p \<in> set ps. a ! p = assignNames (st ! p)" using Cons.prems by simp
  show ?case
    by (simp add: Cons.IH [OF r] a assignNames_fields assignNames_names branchLabel_def)
qed

lemma occ_sprite_arg:
  assumes "Type x = OutputTypeSprites"
  shows "occ ''scale='' (buildSplitSpriteArg (assignNames x) @ u) = occ ''scale='' u"
  using assms
  by (simp add: buildSplitSpriteArg_def writeFilterOutputName_def assignNames_names
      occ_sprite_names occ_tile buildSplitSpriteTileArg_def assignNames_fields occ_Itoa)

lemma extendedLoop_safe:
  assumes "\<forall>p \<in> set need. a ! p = assignNames (st ! p)"
  shows "\<exists>E. extendedLoop a n i bld need = bld @ E \<and> (\<forall>u. occ ''scale='' (E @ u) = occ ''scale='' u)"
  using assms
proof (induction need arbitrary: i bld)
  case Nil
  show ?case by simp
next
  case (Cons p need)
  have a: "a ! p = assignNames (st ! p)" using Cons.prems by simp
  have r: "\<forall>p \<in> set need. a ! p = assignNames (st ! p)" using Cons.prems by simp
  let ?piece = "(if Type (a ! p) = OutputTypeSprites then buildSplitSpriteArg (a ! p) else [])
                @ (if Suc i < n then '';'' else [])"
  have o: "occ ''scale='' (?piece @ u) = occ ''scale='' u" for u
    by (simp add: a assignNames_fields occ_sprite_arg)
  from Cons.IH [OF r, of "Suc i" "bld @ ?piece"]
  obtain E where e: "extendedLoop a n (Suc i) (bld @ ?piece) need = (bld @ ?piece) @ E"
    and s: "\<forall>u. occ ''scale='' (E @ u) = occ ''scale='' u" by blast
  have b: "(if Type (a ! p) = OutputTypeSprites then bld @ buildSplitSpriteArg (a ! p) else bld)
            @ (if Suc i < n then '';'' else []) = bld @ ?piece"
    by simp
  have x: "extendedLoop a n i bld (p # need) = bld @ (?piece @ E)"
    by (simp only: extendedLoop.simps b e append_assoc)
  have "occ ''scale='' ((?piece @ E) @ u) = occ ''scale='' u" for u
    using o [of "E @ u"] s by simp
  then show ?case using x by blast
qed

lemma assigned_entries:
  assumes "set ps \<subseteq> {..<length st}"
  shows "\<forall>p \<in> set ps. assignNamesLoop st ps ! p = assignNames (st ! p)"
  using assms by (auto simp: assignNamesLoop_nth)

lemma buildSplitMany_explicit:
  assumes "set ps \<subseteq> {..<length st}"
  shows "\<exists>tiles. buildSplitMany (assignNamesLoop st ps) ps
            = '',split='' @ Itoa (int (length ps))
              @ concat (map (\<lambda>p. branchLabel (st ! p)) ps) @ tiles
          \<and> (\<forall>u. occ ''scale='' (tiles @ u) = occ ''scale='' u)"
proof -
  let ?a = "assignNamesLoop st ps"
  let ?b = "'',split='' @ Itoa (int (length ps))"
  have en: "\<forall>p \<in> set ps. ?a ! p = assignNames (st ! p)"
    using assms by (rule assigned_entries)
  have l: "fst (splitLabels ?a ?b [] ps) = ?b @ concat (map (\<lambda>p. branchLabel (st ! p)) ps)"
    using en by (rule splitLabels_explicit)
  have nd: "\<forall>p \<in> set (snd (splitLabels ?a ?b [] ps)). ?a ! p = assignNames (st ! p)"
    using en by (simp add: splitLabels_need)
  show ?thesis
  proof (cases "length (snd (splitLabels ?a ?b [] ps)) = 0")
    case True
    have "buildSplitMany ?a ps = fst (splitLabels ?a ?b [] ps)"
      unfolding buildSplitMany_def by (simp only: True simp_thms if_True)
    also have "\<dots> = '',split='' @ Itoa (int (length ps))
              @ concat (map (\<lambda>p. branchLabel (st ! p)) ps) @ []"
      by (simp only: l append_Nil2 append_assoc)
    finally show ?thesis by (metis append_Nil)
  next
    case False
    from extendedLoop_safe [OF nd, of "length ps" 0 "fst (splitLabels ?a ?b [] ps) @ '';''"]
    obtain E where e: "extendedLoop ?a (length ps) 0 (fst (splitLabels ?a ?b [] ps) @ '';'')
                         (snd (splitLabels ?a ?b [] ps))
                       = (fst (splitLabels ?a ?b [] ps) @ '';'') @ E"
      and s: "\<forall>u. occ ''scale='' (E @ u) = occ ''scale='' u" by blast
    have "buildSplitMany ?a ps
            = extendedLoop ?a (length ps) 0 (fst (splitLabels ?a ?b [] ps) @ '';'')
                         (snd (splitLabels ?a ?b [] ps))"
      unfolding buildSplitMany_def by (simp only: False if_False)
    also have "\<dots> = '',split='' @ Itoa (int (length ps))
              @ concat (map (\<lambda>p. branchLabel (st ! p)) ps) @ ('';'' @ E)"
      by (simp only: e) (simp only: l append_assoc)
    finally have x: "buildSplitMany ?a ps = '',split='' @ Itoa (int (length ps))
              @ concat (map (\<lambda>p. branchLabel (st ! p)) ps) @ ('';'' @ E)" .
    have "occ ''scale='' (('';'' @ E) @ u) = occ ''scale='' u" for u
      using s by simp
    then show ?thesis using x by blast
  qed
qed

lemma occ_lit_split: "occ ''scale='' ('',split='' @ u) = occ ''scale='' u"
  by simp

lemma occ_split:
  assumes "set ps \<subseteq> {..<length st}" and "ps \<noteq> []"
  shows "occ ''scale='' (fst (buildSplitArg st ps) @ u) = occ ''scale='' u"
proof (cases "length ps = 1")
  case True
  then obtain p where ps: "ps = [p]" by (cases ps) auto
  then have p: "p < length st" using assms(1) by simp
  have a: "assignNamesLoop st ps ! hd ps = assignNames (st ! p)"
    using ps p by simp
  show ?thesis
    unfolding buildSplitArg_def
    using True
    by (simp add: a buildSplitSingle_def writeFilterOutputName_def assignNames_fields
        assignNames_names occ_thumb_name occ_sprite_names occ_tile)
next
  case False
  from buildSplitMany_explicit [OF assms(1)]
  obtain tiles where e: "buildSplitMany (assignNamesLoop st ps) ps
            = '',split='' @ Itoa (int (length ps))
              @ concat (map (\<lambda>p. branchLabel (st ! p)) ps) @ tiles"
     and s: "\<forall>u. occ ''scale='' (tiles @ u) = occ ''scale='' u" by blast
  have "fst (buildSplitArg st ps) = buildSplitMany (assignNamesLoop st ps) ps"
    using False by (simp add: buildSplitArg_def)
  then show ?thesis
    by (simp only: e append_assoc occ_lit_split occ_Itoa occ_branchLabels s)
qed

lemma occ_statement:
  assumes "set ps \<subseteq> {..<length st}" and "ps \<noteq> []"
  shows "occ ''scale='' (statementFor st ps @ u) = Suc (occ ''scale='' u)"
  by (simp add: statementFor_def occ_select occ_scale occ_split [OF assms])

lemma statement_shape:
  assumes "set ps \<subseteq> {..<length st}" and "length ps \<noteq> 1"
  shows "\<exists>tiles. statementFor st ps
           = buildSelectFramesArg (st ! hd ps) @ buildScaleArg (Scale (st ! hd ps))
             @ '',split='' @ Itoa (int (length ps))
             @ concat (map (\<lambda>p. branchLabel (st ! p)) ps) @ tiles"
proof -
  from buildSplitMany_explicit [OF assms(1)]
  obtain tiles where e: "buildSplitMany (assignNamesLoop st ps) ps
            = '',split='' @ Itoa (int (length ps))
              @ concat (map (\<lambda>p. branchLabel (st ! p)) ps) @ tiles" by blast
  have "fst (buildSplitArg st ps) = buildSplitMany (assignNamesLoop st ps) ps"
    using assms(2) by (simp add: buildSplitArg_def)
  then have "statementFor st ps
           = buildSelectFramesArg (st ! hd ps) @ buildScaleArg (Scale (st ! hd ps))
             @ '',split='' @ Itoa (int (length ps))
             @ concat (map (\<lambda>p. branchLabel (st ! p)) ps) @ tiles"
    by (simp only: statementFor_def e)
  then show ?thesis by blast
qed

lemma occ_joinFrom:
  assumes "\<forall>s \<in> set ss. \<forall>u. occ ''scale='' (s @ u) = Suc (occ ''scale='' u)"
  shows "occ ''scale='' (joinFrom n m ss @ u) = length ss + occ ''scale='' u"
  using assms by (induction ss arbitrary: m) simp_all

lemma joinFrom_split:
  assumes "s \<in> set ss"
  shows "\<exists>pre post. joinFrom n m ss = pre @ s @ post"
  using assms
proof (induction ss arbitrary: m)
  case Nil
  then show ?case by simp
next
  case (Cons a ss)
  show ?case
  proof (cases "s = a")
    case True
    then have "joinFrom n m (a # ss)
       = [] @ s @ ((if Suc m < n then '';'' else []) @ joinFrom n (Suc m) ss)" by simp
    then show ?thesis by blast
  next
    case False
    then have "s \<in> set ss" using Cons.prems by simp
    from Cons.IH [OF this, of "Suc m"]
    obtain pre post where "joinFrom n (Suc m) ss = pre @ s @ post" by blast
    then have "joinFrom n m (a # ss)
       = (a @ (if Suc m < n then '';'' else []) @ pre) @ s @ post" by simp
    then show ?thesis by blast
  qed
qed

subsection \<open>The example lists\<close>

lemma fmt_g_1s: "fmt_g (Seconds (Truncate 1000000000 1000)) = ''1''"
  by code_simp

lemma example_mixed_scales_eq:
  "example_mixed_scales =
    [example_wide\<lparr>idx := 0, DstPath := DefaultFilename\<rparr>,
     example_thumb\<lparr>idx := 1, DstPath := DefaultFilename\<rparr>,
     example_thumb\<lparr>idx := 2, DstPath := DefaultFilename\<rparr>]"
  by (simp add: example_mixed_scales_def example_wide_def example_thumb_def)

lemma example_mixed_scales_valid: "validateOutputs example_mixed_scales = None"
  by (simp add: example_mixed_scales_eq validateOutputs_def validateOutput_def
      example_wide_def example_thumb_def cfg_consts)

lemma example_mixed_scales_upt: "[0..<length example_mixed_scales] = [0, 1, 2]"
  by (simp add: example_mixed_scales_eq numeral_3_eq_3)

lemma example_two_intervals_eq:
  "example_two_intervals =
    [example_thumb\<lparr>idx := 0, DstPath := DefaultFilename\<rparr>,
     example_every_second\<lparr>idx := 1, DstPath := DefaultFilename\<rparr>]"
  by (simp add: example_two_intervals_def example_every_second_def example_thumb_def)

lemma example_two_intervals_valid: "validateOutputs example_two_intervals = None"
  by (simp add: example_two_intervals_eq validateOutputs_def validateOutput_def
      example_every_second_def example_thumb_def cfg_consts)

lemma example_two_intervals_named:
  "map assignNames example_two_intervals =
    [example_thumb\<lparr>idx := 0, DstPath := DefaultFilename, outName := ''thumbs-0-out''\<rparr>,
     example_every_second\<lparr>idx := 1, DstPath := DefaultFilename, outName := ''thumbs-1-out''\<rparr>]"
  by (simp add: example_two_intervals_eq assignNames_def buildSplitArgThumbOutName_def
      example_every_second_def example_thumb_def cfg_consts Itoa_small)

lemma example_two_intervals_upt: "[0..<length example_two_intervals] = [0, 1]"
  by (simp add: example_two_intervals_eq numeral_2_eq_2)

lemma example_two_intervals_groups:
  "groupOutputs (\<lambda>bs. bs) example_two_intervals [0..<length example_two_intervals]
     = [(6500000000, [([], [0])]), (1000000000, [([], [1])])]"
  unfolding example_two_intervals_upt
  by (simp add: groupOutputs_def groupStep_def scaleKeyBytes_empty example_two_intervals_eq
      example_thumb_def example_every_second_def cfg_consts hex_EncodeToString_def)

lemma example_two_intervals_first:
  "statementFor example_two_intervals (bucketAt example_two_intervals 6500000000)
     = ''[0:v]select=bitor(gte(t-prev_selected_t'' @ [backslash] @ '',6.5)'' @ [backslash]
       @ '',isnan(prev_selected_t)),''
       @ ''scale=320:180:force_original_aspect_ratio=decrease,pad=320:180:-1:-1:color=black''
       @ ''[thumbs-0-out]''"
  unfolding bucketAt_def bucketOf_def example_two_intervals_upt
  by (simp add: statementFor_def example_two_intervals_eq buildSelectFramesArg_def
      buildScaleArg_def buildSplitArg_def buildSplitSingle_def writeFilterOutputName_def
      assignNames_def buildSplitArgThumbOutName_def example_thumb_def example_every_second_def
      cfg_consts Itoa_small fmt_g_6500ms)

lemma example_two_intervals_second:
  "statementFor example_two_intervals (bucketAt example_two_intervals 1000000000)
     = ''[0:v]select=bitor(gte(t-prev_selected_t'' @ [backslash] @ '',1)'' @ [backslash]
       @ '',isnan(prev_selected_t)),''
       @ ''scale=320:180:force_original_aspect_ratio=decrease,pad=320:180:-1:-1:color=black''
       @ ''[thumbs-1-out]''"
  unfolding bucketAt_def bucketOf_def example_two_intervals_upt
  by (simp add: statementFor_def example_two_intervals_eq buildSelectFramesArg_def
      buildScaleArg_def buildSplitArg_def buildSplitSingle_def writeFilterOutputName_def
      assignNames_def buildSplitArgThumbOutName_def example_thumb_def example_every_second_def
      cfg_consts Itoa_small fmt_g_1s)

subsection \<open>Outputs with equal interval\<close>

lemma interval_image:
  "(\<lambda>p. SnapshotInterval (st ! p)) ` {0..<length st} = SnapshotInterval ` set st"
proof -
  have "(\<lambda>p. SnapshotInterval (st ! p)) ` {0..<length st}
          = SnapshotInterval ` ((!) st ` {0..<length st})"
    by (simp add: image_image)
  also have "(!) st ` {0..<length st} = set st"
    using nth_image [of "length st" st] by simp
  finally show ?thesis .
qed

lemma group_member:
  assumes "i < length st"
  shows "(SnapshotInterval (st ! i), [(hashKey Sum256, bucketAt st (SnapshotInterval (st ! i)))])
           \<in> set (groupOutputs Sum256 st [0..<length st])"
  using assms by (auto simp: groupOutputs_set bucketAt_def)

text \<open>
  The compiler buckets by interval alone. Take a valid list and any two of its outputs
  with the same sampling interval, whatever their scale configurations. The compilation
  succeeds; both outputs lie in the bucket of their interval, which is the only bucket of
  that interval; the graph holds the statement of that bucket, whose selection and scale
  stages are written from the first member of the bucket, followed by a single \<open>split\<close>
  with one label for each member; and \<open>scale=\<close> occurs in the graph once for every
  interval of the list.
\<close>

lemma one_stage_per_interval:
  assumes v: "validateOutputs st = None" and ro: "range_order ro" and ri: "\<And>k. range_order (ri k)"
    and ij: "i < j" "j < length st"
    and iv: "SnapshotInterval (st ! i) = SnapshotInterval (st ! j)"
  shows "\<exists>g st' B pre tiles post.
      BuildComplexFilters Sum256 ro ri st = Inr (g, st')
    \<and> B = bucketAt st (SnapshotInterval (st ! i))
    \<and> (SnapshotInterval (st ! i), [(hashKey Sum256, B)])
        \<in> set (groupOutputs Sum256 st [0..<length st])
    \<and> i \<in> set B \<and> j \<in> set B
    \<and> g = pre @ buildSelectFramesArg (st ! hd B) @ buildScaleArg (Scale (st ! hd B))
          @ '',split='' @ Itoa (int (length B)) @ concat (map (\<lambda>p. branchLabel (st ! p)) B)
          @ tiles @ post
    \<and> occ ''scale='' g = card (SnapshotInterval ` set st)"
proof -
  let ?G = "groupOutputs Sum256 st [0..<length st]"
  let ?k = "SnapshotInterval (st ! i)"
  let ?B = "bucketAt st ?k"
  let ?ss = "map (\<lambda>g. statementFor st (bucketAt st (fst g))) (ro ?G)"
  let ?g = "joinFrom (length ?G) 0 ?ss"
  have i: "i < length st" using ij by simp
  have run: "BuildComplexFilters Sum256 ro ri st = Inr (?g, map assignNames st)"
    using v ro ri by (rule BuildComplexFilters_graph)
  have mem: "(?k, [(hashKey Sum256, ?B)]) \<in> set ?G"
    using i by (rule group_member)
  have iB: "i \<in> set ?B" using i by (simp add: bucketAt_mem)
  have jB: "j \<in> set ?B" using ij iv by (simp add: bucketAt_mem)
  have sub: "set ?B \<subseteq> {..<length st}" by (auto simp: bucketAt_mem)
  have "distinct ?B" by (simp add: bucketAt_def bucketOf_def)
  then have "card (set ?B) = length ?B" by (rule distinct_card)
  moreover have "{i, j} \<subseteq> set ?B" using iB jB by simp
  then have "card {i, j} \<le> card (set ?B)" by (intro card_mono) simp_all
  ultimately have len: "length ?B \<noteq> 1" using ij(1) by simp
  from statement_shape [OF sub len]
  obtain tiles where sh: "statementFor st ?B
           = buildSelectFramesArg (st ! hd ?B) @ buildScaleArg (Scale (st ! hd ?B))
             @ '',split='' @ Itoa (int (length ?B))
             @ concat (map (\<lambda>p. branchLabel (st ! p)) ?B) @ tiles" by blast
  have "(?k, [(hashKey Sum256, ?B)]) \<in> set (ro ?G)"
    using mem range_order_set [OF ro] by simp
  then have "statementFor st ?B \<in> set ?ss" by force
  from joinFrom_split [OF this, of "length ?G" 0]
  obtain pre post where sp: "?g = pre @ statementFor st ?B @ post" by blast
  have g: "?g = pre @ buildSelectFramesArg (st ! hd ?B) @ buildScaleArg (Scale (st ! hd ?B))
          @ '',split='' @ Itoa (int (length ?B)) @ concat (map (\<lambda>p. branchLabel (st ! p)) ?B)
          @ tiles @ post"
    by (simp only: sp sh append_assoc)
  have each: "\<forall>s \<in> set ?ss. \<forall>u. occ ''scale='' (s @ u) = Suc (occ ''scale='' u)"
  proof
    fix s assume "s \<in> set ?ss"
    then obtain gr where gr: "gr \<in> set ?G" and s: "s = statementFor st (bucketAt st (fst gr))"
      using range_order_set [OF ro] by auto
    have wf: "wellformed_group st gr" and gb: "group_bucket gr = bucketAt st (fst gr)"
      using groups_wellformed [OF gr] by simp_all
    then have "bucketAt st (fst gr) \<noteq> []" and "set (bucketAt st (fst gr)) \<subseteq> {..<length st}"
      by (auto simp: wellformed_group_def group_bucket_def)
    then show "\<forall>u. occ ''scale='' (s @ u) = Suc (occ ''scale='' u)"
      using occ_statement s by blast
  qed
  have "occ ''scale='' (?g @ []) = length ?ss + occ ''scale='' []"
    using each by (rule occ_joinFrom)
  then have cnt: "occ ''scale='' ?g = card (SnapshotInterval ` set st)"
    by (simp add: range_order_length [OF ro] groupOutputs_length interval_image)
  show ?thesis
    using run mem iB jB g cnt by blast
qed

text \<open>
  C1. The claim asks that two outputs with the same interval and the same scale
  configuration get one shared selection and scale stage of their own, also in a list that
  holds an output of the same interval with another scale configuration. \<open>groupOutputs\<close>
  drops what \<open>AppendUint64\<close> returns, so the key of the inner map does not depend on the
  scale, and the stage of a bucket is written from its first member. For a 640x360 output
  followed by two equal 320x180 outputs, all every 6500 ms and numbered as \<open>NewGenerator\<close>
  does, the graph is one statement that scales to 640x360 and splits three ways: the
  scale stage of the equal pair does not occur in it.
\<close>

theorem equal_pair_behind_other_scale:
  assumes "range_order ro" and "\<And>k. range_order (ri k)"
  shows "\<exists>g st'.
       NewGenerator_filters Sum256 ro ri [example_wide, example_thumb, example_thumb] = Inr (g, st')
     \<and> g = ''[0:v]select=bitor(gte(t-prev_selected_t'' @ [backslash] @ '',6.5)'' @ [backslash]
            @ '',isnan(prev_selected_t)),''
            @ ''scale=640:360,split=3[thumbs-0-out][thumbs-1-out][thumbs-2-out]''
     \<and> map outName st' = [''thumbs-0-out'', ''thumbs-1-out'', ''thumbs-2-out'']
     \<and> SnapshotInterval (example_mixed_scales ! 1) = SnapshotInterval (example_mixed_scales ! 2)
     \<and> Scale (example_mixed_scales ! 1) = Scale (example_mixed_scales ! 2)
     \<and> Scale (example_mixed_scales ! 0) \<noteq> Scale (example_mixed_scales ! 1)
     \<and> buildScaleArg (Scale (example_mixed_scales ! 1))
         = ''scale=320:180:force_original_aspect_ratio=decrease,pad=320:180:-1:-1:color=black''
     \<and> occ (buildScaleArg (Scale (example_mixed_scales ! 1))) g = 0
     \<and> occ ''scale=320:180'' g = 0
     \<and> occ ''scale=640:360'' g = 1
     \<and> occ ''scale='' g = 1"
proof -
  have g: "groupOutputs Sum256 example_mixed_scales [0..<length example_mixed_scales]
      = [(6500000000, [(hashKey Sum256, [0, 1, 2])])]"
    unfolding example_mixed_scales_upt
    by (simp add: groupOutputs_def groupStep_def scaleKeyBytes_empty example_mixed_scales_eq
        example_thumb_def example_wide_def cfg_consts hashKey_def)
  have b: "bucketAt example_mixed_scales 6500000000 = [0, 1, 2]"
    unfolding bucketAt_def bucketOf_def example_mixed_scales_upt
    by (simp add: example_mixed_scales_eq example_thumb_def example_wide_def cfg_consts)
  have s: "statementFor example_mixed_scales [0, 1, 2]
      = ''[0:v]select=bitor(gte(t-prev_selected_t'' @ [backslash] @ '',6.5)'' @ [backslash]
        @ '',isnan(prev_selected_t)),''
        @ ''scale=640:360,split=3[thumbs-0-out][thumbs-1-out][thumbs-2-out]''"
    by (simp add: statementFor_def example_mixed_scales_eq buildSelectFramesArg_def
        buildScaleArg_def buildSplitArg_def buildSplitMany_def
        assignNames_def buildSplitArgThumbOutName_def example_thumb_def example_wide_def
        cfg_consts Itoa_small fmt_g_6500ms)
  have r: "BuildComplexFilters Sum256 ro ri example_mixed_scales
      = Inr (statementFor example_mixed_scales [0, 1, 2], map assignNames example_mixed_scales)"
    using BuildComplexFilters_graph [where st = example_mixed_scales and ro = ro and ri = ri
        and ?Sum256.0 = Sum256, OF example_mixed_scales_valid assms]
      range_order_single [OF assms(1)]
    by (simp add: g b)
  have run: "NewGenerator_filters Sum256 ro ri [example_wide, example_thumb, example_thumb]
      = Inr (''[0:v]select=bitor(gte(t-prev_selected_t'' @ [backslash] @ '',6.5)'' @ [backslash]
             @ '',isnan(prev_selected_t)),''
             @ ''scale=640:360,split=3[thumbs-0-out][thumbs-1-out][thumbs-2-out]'',
             map assignNames example_mixed_scales)"
    unfolding NewGenerator_filters_def example_mixed_scales_def [symmetric] r s by (rule refl)
  have n: "map outName (map assignNames example_mixed_scales)
      = [''thumbs-0-out'', ''thumbs-1-out'', ''thumbs-2-out'']"
    by (simp add: example_mixed_scales_eq assignNames_def buildSplitArgThumbOutName_def
        example_thumb_def example_wide_def cfg_consts Itoa_small)
  have e: "SnapshotInterval (example_mixed_scales ! 1) = SnapshotInterval (example_mixed_scales ! 2)"
    "Scale (example_mixed_scales ! 1) = Scale (example_mixed_scales ! 2)"
    "Scale (example_mixed_scales ! 0) \<noteq> Scale (example_mixed_scales ! 1)"
    by (simp_all add: example_mixed_scales_eq example_thumb_def example_wide_def)
  have a: "buildScaleArg (Scale (example_mixed_scales ! 1))
      = ''scale=320:180:force_original_aspect_ratio=decrease,pad=320:180:-1:-1:color=black''"
    by (simp add: example_mixed_scales_eq buildScaleArg_def example_thumb_def cfg_consts
        Itoa_small)
  show ?thesis
    unfolding run a using n e by (simp add: backslash_def)
qed

theorem equal_pair_witness:
  "range_order (\<lambda>g :: groups. g) \<and> range_order (\<lambda>m :: bucket_map. m)
   \<and> (\<exists>g st'. NewGenerator_filters (\<lambda>bs. bs) (\<lambda>g. g) (\<lambda>k m. m)
                 [example_wide, example_thumb, example_thumb] = Inr (g, st')
        \<and> occ ''scale=640:360'' g = 1
        \<and> occ (buildScaleArg (Scale example_thumb)) g = 0)"
proof -
  have a: "range_order (\<lambda>g :: groups. g)"
    by (rule range_order_id)
  have b: "range_order (\<lambda>m :: bucket_map. m)"
    by (rule range_order_id)
  have c: "Scale (example_mixed_scales ! 1) = Scale example_thumb"
    by (simp add: example_mixed_scales_eq)
  show ?thesis
    using equal_pair_behind_other_scale [of "\<lambda>g. g" "\<lambda>k m. m" "\<lambda>bs. bs", OF a b] a b
    unfolding c by auto
qed

subsection \<open>Compiling twice\<close>

lemma validateOutput_assignNames: "validateOutput i (assignNames x) = validateOutput i x"
  unfolding validateOutput_def assignNames_fields by (rule refl)

lemma validateLoop_assignNames: "validateLoop i (map assignNames st) = validateLoop i st"
  by (induction st arbitrary: i) (simp_all add: validateOutput_assignNames split: option.split)

lemma validateOutputs_assignNames: "validateOutputs (map assignNames st) = validateOutputs st"
  by (simp add: validateOutputs_def validateLoop_assignNames)

lemma groupStep_cong:
  assumes "SnapshotInterval (st' ! p) = SnapshotInterval (st ! p)"
  shows "groupStep Sum256 st' G p = groupStep Sum256 st G p"
  unfolding groupStep_def Let_def scaleKeyBytes_empty assms by (rule refl)

lemma groupOutputs_cong:
  assumes "\<forall>p \<in> set ps. SnapshotInterval (st' ! p) = SnapshotInterval (st ! p)"
  shows "groupOutputs Sum256 st' ps = groupOutputs Sum256 st ps"
  using assms
proof (induction ps rule: rev_induct)
  case Nil
  show ?case by (simp add: groupOutputs_def)
next
  case (snoc p ps)
  have ih: "groupOutputs Sum256 st' ps = groupOutputs Sum256 st ps"
    using snoc by simp
  have e: "SnapshotInterval (st' ! p) = SnapshotInterval (st ! p)"
    using snoc.prems by simp
  show ?case
    by (simp only: groupOutputs_snoc ih groupStep_cong [OF e])
qed

lemma groupOutputs_assignNames:
  "groupOutputs Sum256 (map assignNames st) [0..<length (map assignNames st)]
     = groupOutputs Sum256 st [0..<length st]"
proof -
  have "groupOutputs Sum256 (map assignNames st) [0..<length st]
          = groupOutputs Sum256 st [0..<length st]"
    by (rule groupOutputs_cong) (simp add: assignNames_fields)
  then show ?thesis by simp
qed

lemma assigned_all: "assigned st {..<length st} (map assignNames st)"
  by (simp add: assigned_def)

lemma statementFor_assignNames:
  assumes "set ps \<subseteq> {..<length st}" and "ps \<noteq> []"
  shows "statementFor (map assignNames st) ps = statementFor st ps"
  using statementFor_assigned [OF assigned_all assms] by (simp add: statementFor_def)

lemma bucketAt_assignNames: "bucketAt (map assignNames st) k = bucketAt st k"
proof -
  have "filter (\<lambda>p. SnapshotInterval (map assignNames st ! p) = k) [0..<length st]
      = filter (\<lambda>p. SnapshotInterval (st ! p) = k) [0..<length st]"
    by (rule filter_cong) (simp_all add: assignNames_fields)
  then show ?thesis by (simp add: bucketAt_def bucketOf_def)
qed

lemma statements_assignNames:
  assumes "set L = set (groupOutputs Sum256 st [0..<length st])"
  shows "map (\<lambda>g. statementFor (map assignNames st) (bucketAt (map assignNames st) (fst g))) L
       = map (\<lambda>g. statementFor st (bucketAt st (fst g))) L"
proof (rule map_cong)
  fix g assume "g \<in> set L"
  then have g: "g \<in> set (groupOutputs Sum256 st [0..<length st])" using assms by simp
  have "wellformed_group st g" and "group_bucket g = bucketAt st (fst g)"
    using groups_wellformed [OF g] by simp_all
  then have "bucketAt st (fst g) \<noteq> []" and "set (bucketAt st (fst g)) \<subseteq> {..<length st}"
    by (auto simp: wellformed_group_def group_bucket_def)
  then show "statementFor (map assignNames st) (bucketAt (map assignNames st) (fst g))
           = statementFor st (bucketAt st (fst g))"
    by (simp add: bucketAt_assignNames statementFor_assignNames)
qed simp

text \<open>
  C3, as amended. Compiling a valid list twice, the second time from the store the first
  compilation left: both compilations succeed and the second changes nothing in the store,
  in which every output carries the names \<open>assignNames\<close> gives it, whatever the orders of
  map iteration. The two graphs are equal when both compilations visit the outer map in
  the same order, and in any case when the list has a single interval.
\<close>

theorem compile_twice:
  assumes v: "validateOutputs st = None"
    and ro1: "range_order ro1" and ro2: "range_order ro2"
    and ri1: "\<And>k. range_order (ri1 k)" and ri2: "\<And>k. range_order (ri2 k)"
  shows "\<exists>g1 g2 st'.
      BuildComplexFilters Sum256 ro1 ri1 st = Inr (g1, st')
    \<and> BuildComplexFilters Sum256 ro2 ri2 st' = Inr (g2, st')
    \<and> st' = map assignNames st
    \<and> (ro1 (groupOutputs Sum256 st [0..<length st]) = ro2 (groupOutputs Sum256 st [0..<length st])
        \<longrightarrow> g1 = g2)
    \<and> (card (SnapshotInterval ` set st) = 1 \<longrightarrow> g1 = g2)"
proof -
  let ?G = "groupOutputs Sum256 st [0..<length st]"
  let ?st' = "map assignNames st"
  let ?g = "\<lambda>ro. joinFrom (length ?G) 0 (map (\<lambda>g. statementFor st (bucketAt st (fst g))) (ro ?G))"
  have r1: "BuildComplexFilters Sum256 ro1 ri1 st = Inr (?g ro1, ?st')"
    using v ro1 ri1 by (rule BuildComplexFilters_graph)
  have v': "validateOutputs ?st' = None" using v by (simp add: validateOutputs_assignNames)
  have G': "groupOutputs Sum256 ?st' [0..<length ?st'] = ?G"
    by (rule groupOutputs_assignNames)
  have s2: "set (ro2 ?G) = set ?G" using ro2 by (rule range_order_set)
  have "BuildComplexFilters Sum256 ro2 ri2 ?st' =
     Inr (joinFrom (length (groupOutputs Sum256 ?st' [0..<length ?st'])) 0
            (map (\<lambda>g. statementFor ?st' (bucketAt ?st' (fst g)))
               (ro2 (groupOutputs Sum256 ?st' [0..<length ?st']))),
          map assignNames ?st')"
    using v' ro2 ri2 by (rule BuildComplexFilters_graph)
  then have r2: "BuildComplexFilters Sum256 ro2 ri2 ?st' = Inr (?g ro2, ?st')"
    by (simp only: G' statements_assignNames [OF s2]) (simp add: assignNames_idem)
  have one: "?g ro1 = ?g ro2" if "card (SnapshotInterval ` set st) = 1"
  proof -
    have "length ?G = 1" using that by (simp add: groupOutputs_length interval_image)
    then obtain x where "?G = [x]" by (cases ?G) auto
    then show ?thesis
      using range_order_single [OF ro1] range_order_single [OF ro2] by simp
  qed
  have same: "?g ro1 = ?g ro2" if "ro1 ?G = ro2 ?G"
    using that by simp
  show ?thesis
    using r1 r2 one same by blast
qed

theorem compile_twice_witness:
  "validateOutputs example_two_intervals = None
   \<and> range_order (\<lambda>g :: groups. g) \<and> range_order (\<lambda>m :: bucket_map. m)
   \<and> (\<exists>g. BuildComplexFilters (\<lambda>bs. bs) (\<lambda>g. g) (\<lambda>k m. m) example_two_intervals
            = Inr (g, map assignNames example_two_intervals)
          \<and> BuildComplexFilters (\<lambda>bs. bs) (\<lambda>g. g) (\<lambda>k m. m) (map assignNames example_two_intervals)
            = Inr (g, map assignNames example_two_intervals))
   \<and> map outName (map assignNames example_two_intervals) = [''thumbs-0-out'', ''thumbs-1-out'']"
proof -
  have a: "range_order (\<lambda>g :: groups. g)"
    by (rule range_order_id)
  have b: "range_order (\<lambda>m :: bucket_map. m)" for k :: Duration
    by (rule range_order_id)
  have n: "map outName (map assignNames example_two_intervals) = [''thumbs-0-out'', ''thumbs-1-out'']"
    by (simp add: example_two_intervals_named)
  show ?thesis
    using compile_twice [where st = example_two_intervals and ?ro1.0 = "\<lambda>g. g" and ?ro2.0 = "\<lambda>g. g"
        and ?ri1.0 = "\<lambda>k m. m" and ?ri2.0 = "\<lambda>k m. m" and ?Sum256.0 = "\<lambda>bs. bs",
        OF example_two_intervals_valid a a b b]
      example_two_intervals_valid a b n
    by auto
qed

text \<open>
  The claim as stated fails: \<open>range\<close> over a map visits the entries in no fixed order, and
  the statements are written in the order of the visit. For the list with the intervals
  6500 ms and 1 s, visiting the outer map in insertion order and in the reverse order
  gives two different graphs.
\<close>

theorem iteration_order_counterexample:
  "validateOutputs example_two_intervals = None
   \<and> range_order (\<lambda>g :: groups. g) \<and> range_order (rev :: groups \<Rightarrow> groups)
   \<and> range_order (\<lambda>m :: bucket_map. m)
   \<and> BuildComplexFilters (\<lambda>bs. bs) (\<lambda>g. g) (\<lambda>k m. m) example_two_intervals
       = Inr (''[0:v]select=bitor(gte(t-prev_selected_t'' @ [backslash] @ '',6.5)'' @ [backslash]
              @ '',isnan(prev_selected_t)),''
              @ ''scale=320:180:force_original_aspect_ratio=decrease,pad=320:180:-1:-1:color=black''
              @ ''[thumbs-0-out];''
              @ ''[0:v]select=bitor(gte(t-prev_selected_t'' @ [backslash] @ '',1)'' @ [backslash]
              @ '',isnan(prev_selected_t)),''
              @ ''scale=320:180:force_original_aspect_ratio=decrease,pad=320:180:-1:-1:color=black''
              @ ''[thumbs-1-out]'',
              map assignNames example_two_intervals)
   \<and> BuildComplexFilters (\<lambda>bs. bs) rev (\<lambda>k m. m) example_two_intervals
       = Inr (''[0:v]select=bitor(gte(t-prev_selected_t'' @ [backslash] @ '',1)'' @ [backslash]
              @ '',isnan(prev_selected_t)),''
              @ ''scale=320:180:force_original_aspect_ratio=decrease,pad=320:180:-1:-1:color=black''
              @ ''[thumbs-1-out];''
              @ ''[0:v]select=bitor(gte(t-prev_selected_t'' @ [backslash] @ '',6.5)'' @ [backslash]
              @ '',isnan(prev_selected_t)),''
              @ ''scale=320:180:force_original_aspect_ratio=decrease,pad=320:180:-1:-1:color=black''
              @ ''[thumbs-0-out]'',
              map assignNames example_two_intervals)
   \<and> BuildComplexFilters (\<lambda>bs. bs) (\<lambda>g. g) (\<lambda>k m. m) example_two_intervals
       \<noteq> BuildComplexFilters (\<lambda>bs. bs) rev (\<lambda>k m. m) example_two_intervals"
proof -
  have a: "range_order (\<lambda>g :: groups. g)"
    by (rule range_order_id)
  have r: "range_order (rev :: groups \<Rightarrow> groups)"
    by (rule range_order_rev)
  have b: "range_order (\<lambda>m :: bucket_map. m)" for k :: Duration
    by (rule range_order_id)
  have x: "BuildComplexFilters (\<lambda>bs. bs) ro (\<lambda>k m. m) example_two_intervals
      = Inr (joinFrom (Suc (Suc 0)) 0 (map (\<lambda>g. statementFor example_two_intervals
                (bucketAt example_two_intervals (fst g)))
             (ro [(6500000000, [([], [0])]), (1000000000, [([], [1])])])),
           map assignNames example_two_intervals)"
    if "range_order ro" for ro :: "groups \<Rightarrow> groups"
    using BuildComplexFilters_graph [where st = example_two_intervals and ro = ro
        and ri = "\<lambda>k m. m" and ?Sum256.0 = "\<lambda>bs. bs", OF example_two_intervals_valid that b]
    by (simp add: example_two_intervals_groups)
  have x1: "BuildComplexFilters (\<lambda>bs. bs) (\<lambda>g. g) (\<lambda>k m. m) example_two_intervals
       = Inr (''[0:v]select=bitor(gte(t-prev_selected_t'' @ [backslash] @ '',6.5)'' @ [backslash]
              @ '',isnan(prev_selected_t)),''
              @ ''scale=320:180:force_original_aspect_ratio=decrease,pad=320:180:-1:-1:color=black''
              @ ''[thumbs-0-out];''
              @ ''[0:v]select=bitor(gte(t-prev_selected_t'' @ [backslash] @ '',1)'' @ [backslash]
              @ '',isnan(prev_selected_t)),''
              @ ''scale=320:180:force_original_aspect_ratio=decrease,pad=320:180:-1:-1:color=black''
              @ ''[thumbs-1-out]'',
              map assignNames example_two_intervals)"
    unfolding x [OF a]
    by (simp add: example_two_intervals_first example_two_intervals_second)
  have x2: "BuildComplexFilters (\<lambda>bs. bs) rev (\<lambda>k m. m) example_two_intervals
       = Inr (''[0:v]select=bitor(gte(t-prev_selected_t'' @ [backslash] @ '',1)'' @ [backslash]
              @ '',isnan(prev_selected_t)),''
              @ ''scale=320:180:force_original_aspect_ratio=decrease,pad=320:180:-1:-1:color=black''
              @ ''[thumbs-1-out];''
              @ ''[0:v]select=bitor(gte(t-prev_selected_t'' @ [backslash] @ '',6.5)'' @ [backslash]
              @ '',isnan(prev_selected_t)),''
              @ ''scale=320:180:force_original_aspect_ratio=decrease,pad=320:180:-1:-1:color=black''
              @ ''[thumbs-0-out]'',
              map assignNames example_two_intervals)"
    unfolding x [OF r]
    by (simp add: example_two_intervals_first example_two_intervals_second)
  have d: "BuildComplexFilters (\<lambda>bs. bs) (\<lambda>g. g) (\<lambda>k m. m) example_two_intervals
       \<noteq> BuildComplexFilters (\<lambda>bs. bs) rev (\<lambda>k m. m) example_two_intervals"
    unfolding x1 x2 by (simp add: backslash_def)
  show ?thesis
    using example_two_intervals_valid a r b x1 x2 d by (intro conjI)
qed

subsection \<open>Rounding to binary64\<close>















lemma powi_le_cancel:
  fixes x :: real
  assumes "1 < x" and "x powi a \<le> x powi b"
  shows "a \<le> b"
proof (rule ccontr)
  assume "\<not> a \<le> b"
  then have "b < a" by simp
  then have "x powi b < x powi a" using assms(1) by (rule power_int_strict_increasing)
  then show False using assms(2) by simp
qed








subsection \<open>The seconds of an interval\<close>












lemma f64_of_int_1e9: "f64_of_int 1000000000 = (8388608000000000, - 23)"
  by code_simp

lemma valr_1e9: "valr (f64_of_int 1000000000) = 1000000000"
  by (simp add: f64_of_int_1e9 valr_def)



subsection \<open>The shortest decimal\<close>























subsection \<open>The interval parameter\<close>






end
